theory Spec2Isabelle
  imports Main "HOL-Library.Sublist" "HOL-Library.AList" "HOL-Library.Product_Lexorder"
begin

section \<open>Python strings\<close>

text \<open>
  A Python \<open>str\<close> is a sequence of Unicode code points; it is modelled as a list of
  naturals.  ASCII literals are written \<open>ascii ''...''\<close>; the Cyrillic literals of the
  source are written out as code points.
\<close>

type_synonym str = "nat list"

definition ascii :: "string \<Rightarrow> str" where
  "ascii s = map of_char s"

text \<open>
  What the interpreter knows about characters and integers: the three properties of the
  Unicode character database that \<open>str.strip\<close>, \<open>str.isdigit\<close>, \<open>int\<close> and the
  regular expressions of \<open>strptime\<close> consult, and the interpreter's limit on the
  number of digits \<open>int\<close> converts (0 switches the limit off).  Every function that
  depends on them takes the record as its first argument.
\<close>

record runtime =
  isspace_cp :: "nat \<Rightarrow> bool"
  isdigit_cp :: "nat \<Rightarrow> bool"
  decimal_cp :: "nat \<Rightarrow> nat option"
  int_max_str_digits :: nat

text \<open>
  The character tables of CPython 3.11 (Unicode 14.0.0), in full.  The decimal digits
  come in blocks of ten consecutive code points with the values 0 to 9;
  \<open>decimal_blocks\<close> lists the first code point of every block.  \<open>str.isdigit\<close>
  accepts the decimal digits and the characters of \<open>other_digits\<close> (superscripts,
  circled digits and the like), given as ranges.
\<close>

definition decimal_blocks :: "nat list" where
  "decimal_blocks =
     [48, 1632, 1776, 1984, 2406, 2534, 2662, 2790, 2918, 3046, 3174, 3302, 3430, 3558,
      3664, 3792, 3872, 4160, 4240, 6112, 6160, 6470, 6608, 6784, 6800, 6992, 7088,
      7232, 7248, 42528, 43216, 43264, 43472, 43504, 43600, 44016, 65296, 66720, 68912,
      69734, 69872, 69942, 70096, 70384, 70736, 70864, 71248, 71360, 71472, 71904,
      72016, 72784, 73040, 73120, 92768, 92864, 93008, 120782, 120792, 120802, 120812,
      120822, 123200, 123632, 125264, 130032]"

definition other_digits :: "(nat \<times> nat) list" where
  "other_digits =
     [(178, 179), (185, 185), (4969, 4977), (6618, 6618), (8304, 8304), (8308, 8313),
      (8320, 8329), (9312, 9320), (9332, 9340), (9352, 9360), (9450, 9450),
      (9461, 9469), (9471, 9471), (10102, 10110), (10112, 10120), (10122, 10130),
      (68160, 68163), (69216, 69224), (69714, 69722), (127232, 127242)]"

definition cpython :: runtime where
  "cpython = \<lparr>
     isspace_cp = (\<lambda>c. (9 \<le> c \<and> c \<le> 13) \<or> (28 \<le> c \<and> c \<le> 32) \<or> c = 133 \<or> c = 160
        \<or> c = 5760 \<or> (8192 \<le> c \<and> c \<le> 8202) \<or> c = 8232 \<or> c = 8233 \<or> c = 8239
        \<or> c = 8287 \<or> c = 12288),
     isdigit_cp = (\<lambda>c. list_ex (\<lambda>b. b \<le> c \<and> c < b + 10) decimal_blocks
        \<or> list_ex (\<lambda>(lo, hi). lo \<le> c \<and> c \<le> hi) other_digits),
     decimal_cp = (\<lambda>c. map_option (\<lambda>b. c - b) (find (\<lambda>b. b \<le> c \<and> c < b + 10) decimal_blocks)),
     int_max_str_digits = 4300 \<rparr>"

subsection \<open>\<open>str\<close> methods\<close>

definition strip :: "runtime \<Rightarrow> str \<Rightarrow> str" where
  "strip E s = rev (dropWhile (isspace_cp E) (rev (dropWhile (isspace_cp E) s)))"

definition strip_chars :: "str \<Rightarrow> str \<Rightarrow> str" where
  "strip_chars cs s =
     rev (dropWhile (\<lambda>c. c \<in> set cs) (rev (dropWhile (\<lambda>c. c \<in> set cs) s)))"

text \<open>
  \<open>s.split(sep)\<close>: cut at the leftmost occurrence of \<open>sep\<close>, go on behind it.
  \<open>acc\<close> holds the current piece, reversed.  The separators of the source are
  non-empty literals (Python raises \<open>ValueError\<close> for an empty one; here an empty
  separator never matches).
\<close>

function split_from :: "str \<Rightarrow> str \<Rightarrow> str \<Rightarrow> str list" where
  "split_from sep acc [] = [rev acc]"
| "split_from sep acc (c # cs) =
     (if sep \<noteq> [] \<and> prefix sep (c # cs)
      then rev acc # split_from sep [] (drop (length sep) (c # cs))
      else split_from sep (c # acc) cs)"
  by pat_completeness auto
termination
  by (relation "measure (\<lambda>(sep, acc, s). length s)") auto

definition split :: "str \<Rightarrow> str \<Rightarrow> str list" where
  "split sep s = split_from sep [] s"

text \<open>\<open>s.split(sep, 1)\<close>: at most one cut.\<close>

fun split1_from :: "str \<Rightarrow> str \<Rightarrow> str \<Rightarrow> str list" where
  "split1_from sep acc [] = [rev acc]"
| "split1_from sep acc (c # cs) =
     (if sep \<noteq> [] \<and> prefix sep (c # cs)
      then [rev acc, drop (length sep) (c # cs)]
      else split1_from sep (c # acc) cs)"

definition split1 :: "str \<Rightarrow> str \<Rightarrow> str list" where
  "split1 sep s = split1_from sep [] s"

text \<open>\<open>s.replace(old, new)\<close> for a non-empty \<open>old\<close>, left to right, not overlapping.\<close>

function replace :: "str \<Rightarrow> str \<Rightarrow> str \<Rightarrow> str" where
  "replace old new [] = []"
| "replace old new (c # cs) =
     (if old \<noteq> [] \<and> prefix old (c # cs)
      then new @ replace old new (drop (length old) (c # cs))
      else c # replace old new cs)"
  by pat_completeness auto
termination
  by (relation "measure (\<lambda>(old, new, s). length s)") auto

text \<open>\<open>s.count(sub)\<close>: occurrences of \<open>sub\<close>, not overlapping.\<close>

function count :: "str \<Rightarrow> str \<Rightarrow> int" where
  "count sub [] = 0"
| "count sub (c # cs) =
     (if sub \<noteq> [] \<and> prefix sub (c # cs)
      then 1 + count sub (drop (length sub) (c # cs))
      else count sub cs)"
  by pat_completeness auto
termination
  by (relation "measure (\<lambda>(sub, s). length s)") auto

fun join :: "str \<Rightarrow> str list \<Rightarrow> str" where
  "join sep [] = []"
| "join sep [x] = x"
| "join sep (x # y # ys) = x @ sep @ join sep (y # ys)"

definition isdigit :: "runtime \<Rightarrow> str \<Rightarrow> bool" where
  "isdigit E s = (s \<noteq> [] \<and> list_all (isdigit_cp E) s)"

text \<open>\<open>sub in s\<close>\<close>

definition contains :: "str \<Rightarrow> str \<Rightarrow> bool" where
  "contains sub s = sublist sub s"

subsection \<open>\<open>int(s)\<close> and \<open>str(n)\<close>\<close>

text \<open>
  \<open>int(s)\<close> in base 10, as CPython converts a \<open>str\<close>: code points below 128 are
  read as they are (blanks are tab to carriage return and the space, digits are 0 to 9),
  the others are blanks or decimal digits by the character database.  Around the number
  blanks are skipped; the number is an optional sign and digits, single underscores
  allowed between digits.  More digits than the interpreter's limit (only checked above
  640 digits) are refused.  \<open>None\<close> is \<open>ValueError\<close>.
\<close>

definition int_space :: "runtime \<Rightarrow> nat \<Rightarrow> bool" where
  "int_space E c = (if c < 128 then (9 \<le> c \<and> c \<le> 13) \<or> c = 32 else isspace_cp E c)"

definition int_digit :: "runtime \<Rightarrow> nat \<Rightarrow> nat option" where
  "int_digit E c =
     (if c < 128 then (if 48 \<le> c \<and> c \<le> 57 then Some (c - 48) else None)
      else decimal_cp E c)"

fun double_underscore :: "str \<Rightarrow> bool" where
  "double_underscore (a # b # cs) = ((a = 95 \<and> b = 95) \<or> double_underscore (b # cs))"
| "double_underscore _ = False"

definition digits_value :: "runtime \<Rightarrow> str \<Rightarrow> nat" where
  "digits_value E ds =
     foldl (\<lambda>a c. 10 * a + (case int_digit E c of Some d \<Rightarrow> d | None \<Rightarrow> 0)) 0 ds"

definition py_int :: "runtime \<Rightarrow> str \<Rightarrow> int option" where
  "py_int E s =
     (let t = dropWhile (int_space E) s;
          neg = (t \<noteq> [] \<and> hd t = 45);
          b = (if t \<noteq> [] \<and> (hd t = 45 \<or> hd t = 43) then tl t else t);
          body = takeWhile (\<lambda>c. int_digit E c \<noteq> None \<or> c = 95) b;
          rest = dropWhile (\<lambda>c. int_digit E c \<noteq> None \<or> c = 95) b;
          ds = filter (\<lambda>c. c \<noteq> 95) body
      in if body = [] \<or> hd body = 95 \<or> last body = 95 \<or> double_underscore body then None
         else if \<not> list_all (int_space E) rest then None
         else if 640 < length ds \<and> 0 < int_max_str_digits E \<and> int_max_str_digits E < length ds
           then None
         else Some ((if neg then - 1 else 1) * int (digits_value E ds)))"

function digits :: "nat \<Rightarrow> str" where
  "digits n = (if n < 10 then [48 + n] else digits (n div 10) @ [48 + n mod 10])"
  by pat_completeness auto
termination
  by (relation "measure id") auto

definition py_str :: "int \<Rightarrow> str" where
  "py_str i = (if i < 0 then 45 # digits (nat (- i)) else digits (nat i))"

text \<open>The format specification \<open>{i:02d}\<close>: zero-padded to two characters.\<close>

definition fmt_02d :: "int \<Rightarrow> str" where
  "fmt_02d i = (if 0 \<le> i \<and> i < 10 then 48 # py_str i else py_str i)"

section \<open>Dates\<close>

text \<open>
  \<open>datetime.date\<close> and \<open>datetime.datetime\<close> (the microsecond, which the program never
  reads, is left out).  The constructors refuse a year outside 1..9999, a month outside
  1..12, a day the month does not have, and a time of day out of range; \<open>None\<close> is
  their \<open>ValueError\<close>.
\<close>

record py_date =
  year :: int
  month :: int
  day :: int

record py_datetime = py_date +
  hour :: int
  minute :: int
  second :: int

definition isleap :: "int \<Rightarrow> bool" where
  "isleap y = (y mod 4 = 0 \<and> (y mod 100 \<noteq> 0 \<or> y mod 400 = 0))"

definition days_in_month :: "int \<Rightarrow> int \<Rightarrow> int" where
  "days_in_month y m =
     (if m = 2 then (if isleap y then 29 else 28)
      else if m = 4 \<or> m = 6 \<or> m = 9 \<or> m = 11 then 30 else 31)"

definition valid_ymd :: "int \<Rightarrow> int \<Rightarrow> int \<Rightarrow> bool" where
  "valid_ymd y m d =
     (1 \<le> y \<and> y \<le> 9999 \<and> 1 \<le> m \<and> m \<le> 12 \<and> 1 \<le> d \<and> d \<le> days_in_month y m)"

definition valid_date :: "py_date \<Rightarrow> bool" where
  "valid_date d = valid_ymd (year d) (month d) (day d)"

definition valid_datetime :: "py_datetime \<Rightarrow> bool" where
  "valid_datetime t =
     (valid_ymd (year t) (month t) (day t) \<and> 0 \<le> hour t \<and> hour t < 24
      \<and> 0 \<le> minute t \<and> minute t < 60 \<and> 0 \<le> second t \<and> second t < 60)"

definition mk_date :: "int \<Rightarrow> int \<Rightarrow> int \<Rightarrow> py_date option" where
  "mk_date y m d =
     (if valid_ymd y m d then Some \<lparr>year = y, month = m, day = d\<rparr> else None)"

definition mk_datetime :: "int \<Rightarrow> int \<Rightarrow> int \<Rightarrow> int \<Rightarrow> int \<Rightarrow> int \<Rightarrow> py_datetime option" where
  "mk_datetime y m d H M S =
     (if valid_ymd y m d \<and> 0 \<le> H \<and> H < 24 \<and> 0 \<le> M \<and> M < 60 \<and> 0 \<le> S \<and> S < 60
      then Some \<lparr>year = y, month = m, day = d, hour = H, minute = M, second = S\<rparr>
      else None)"

text \<open>\<open>timestamp.date()\<close>\<close>

definition date_of :: "py_datetime \<Rightarrow> py_date" where
  "date_of t = \<lparr>year = year t, month = month t, day = day t\<rparr>"

text \<open>Comparison of dates: by year, then month, then day.\<close>

definition date_less :: "py_date \<Rightarrow> py_date \<Rightarrow> bool" where
  "date_less a b =
     (year a < year b \<or> (year a = year b \<and>
        (month a < month b \<or> (month a = month b \<and> day a < day b))))"

definition date_le :: "py_date \<Rightarrow> py_date \<Rightarrow> bool" where
  "date_le a b = (date_less a b \<or> (year a = year b \<and> month a = month b \<and> day a = day b))"

subsection \<open>\<open>strptime\<close> with the format \<open>%Y-%m-%d %H:%M:%S\<close>\<close>

text \<open>
  CPython turns the format into the regular expression
  \<^verbatim>\<open>(?P<Y>\d\d\d\d)-(?P<m>1[0-2]|0[1-9]|[1-9])-(?P<d>3[0-1]|[1-2]\d|0[1-9]|[1-9]| [1-9])\s+\<close>
  \<^verbatim>\<open>(?P<H>2[0-3]|[0-1]\d|\d):(?P<M>[0-5]\d|\d):(?P<S>6[0-1]|[0-5]\d|\d)\<close>,
  matches it at the start of the text, refuses text left over behind the match, converts
  the groups with \<open>int\<close> and builds the \<open>datetime\<close>.  A piece of the expression is
  modelled by the list of its matches at the start of a text, each with the text behind
  it, in the order in which the backtracking matcher tries them; the first entry of the
  whole expression's list is the match it finds.
\<close>

type_synonym rx = "str \<Rightarrow> (str \<times> str) list"

definition rx_range :: "nat \<Rightarrow> nat \<Rightarrow> rx" where
  "rx_range lo hi s = (case s of [] \<Rightarrow> [] | c # r \<Rightarrow> if lo \<le> c \<and> c \<le> hi then [([c], r)] else [])"

definition rx_lit :: "nat \<Rightarrow> rx" where
  "rx_lit c = rx_range c c"

text \<open>\<^verbatim>\<open>\d\<close>: a decimal digit of any script.\<close>

definition rx_d :: "runtime \<Rightarrow> rx" where
  "rx_d E s = (case s of [] \<Rightarrow> [] | c # r \<Rightarrow> if decimal_cp E c \<noteq> None then [([c], r)] else [])"

text \<open>\<^verbatim>\<open>\s+\<close>: one or more blanks, as many as possible first.\<close>

definition rx_spaces :: "runtime \<Rightarrow> rx" where
  "rx_spaces E s =
     map (\<lambda>k. (take k s, drop k s)) (rev [1 ..< Suc (length (takeWhile (isspace_cp E) s))])"

definition rx_seq :: "rx \<Rightarrow> rx \<Rightarrow> rx" where
  "rx_seq p q s = concat (map (\<lambda>(a, r). map (\<lambda>(b, r'). (a @ b, r')) (q r)) (p s))"

definition rx_alt :: "rx \<Rightarrow> rx \<Rightarrow> rx" where
  "rx_alt p q s = p s @ q s"

definition rx_Y :: "runtime \<Rightarrow> rx" where
  "rx_Y E = rx_seq (rx_d E) (rx_seq (rx_d E) (rx_seq (rx_d E) (rx_d E)))"

definition rx_m :: rx where
  "rx_m = rx_alt (rx_seq (rx_lit 49) (rx_range 48 50))
            (rx_alt (rx_seq (rx_lit 48) (rx_range 49 57)) (rx_range 49 57))"

definition rx_day :: "runtime \<Rightarrow> rx" where
  "rx_day E = rx_alt (rx_seq (rx_lit 51) (rx_range 48 49))
               (rx_alt (rx_seq (rx_range 49 50) (rx_d E))
                 (rx_alt (rx_seq (rx_lit 48) (rx_range 49 57))
                   (rx_alt (rx_range 49 57) (rx_seq (rx_lit 32) (rx_range 49 57)))))"

definition rx_H :: "runtime \<Rightarrow> rx" where
  "rx_H E = rx_alt (rx_seq (rx_lit 50) (rx_range 48 51))
             (rx_alt (rx_seq (rx_range 48 49) (rx_d E)) (rx_d E))"

definition rx_M :: "runtime \<Rightarrow> rx" where
  "rx_M E = rx_alt (rx_seq (rx_range 48 53) (rx_d E)) (rx_d E)"

definition rx_S :: "runtime \<Rightarrow> rx" where
  "rx_S E = rx_alt (rx_seq (rx_lit 54) (rx_range 48 49))
             (rx_alt (rx_seq (rx_range 48 53) (rx_d E)) (rx_d E))"

text \<open>
  The whole expression: a piece in a named group hands on the text it matched, the
  other pieces hand on nothing.
\<close>

type_synonym grx = "str \<Rightarrow> (str list \<times> str) list"

definition rx_group :: "rx \<Rightarrow> grx" where
  "rx_group p s = map (\<lambda>(a, r). ([a], r)) (p s)"

definition rx_plain :: "rx \<Rightarrow> grx" where
  "rx_plain p s = map (\<lambda>(a, r). ([], r)) (p s)"

definition rx_then :: "grx \<Rightarrow> grx \<Rightarrow> grx" where
  "rx_then p q s = concat (map (\<lambda>(g, r). map (\<lambda>(h, r'). (g @ h, r')) (q r)) (p s))"

definition strptime_rx :: "runtime \<Rightarrow> grx" where
  "strptime_rx E =
     rx_then (rx_group (rx_Y E)) (rx_then (rx_plain (rx_lit 45))
    (rx_then (rx_group rx_m) (rx_then (rx_plain (rx_lit 45))
    (rx_then (rx_group (rx_day E)) (rx_then (rx_plain (rx_spaces E))
    (rx_then (rx_group (rx_H E)) (rx_then (rx_plain (rx_lit 58))
    (rx_then (rx_group (rx_M E)) (rx_then (rx_plain (rx_lit 58))
    (rx_group (rx_S E)))))))))))"

definition strptime :: "runtime \<Rightarrow> str \<Rightarrow> py_datetime option" where
  "strptime E s =
     (case strptime_rx E s of
        [] \<Rightarrow> None
      | (groups, rest) # _ \<Rightarrow>
          if rest \<noteq> [] then None
          else (case map (py_int E) groups of
                  [Some y, Some m, Some d, Some H, Some M, Some S] \<Rightarrow> mk_datetime y m d H M S
                | _ \<Rightarrow> None))"

section \<open>The log parser\<close>

text \<open>
  The dict that \<open>parse_log_entry\<close> returns has nine fixed keys: the timestamp and
  eight text fields.  \<open>process_logs\<close> adds the key \<open>date\<close>,
  \<open>assign_departments_to_logs\<close> the key \<open>department\<close>.
\<close>

record entry =
  timestamp :: py_datetime
  client_ip :: str
  client_hostname :: str
  server :: str
  event :: str
  project :: str
  login :: str
  org_unit :: str
  fullname :: str

record log = entry +
  date :: py_date

record dlog = log +
  department :: str

text \<open>\<open>d.get(key, default)\<close> on a dict kept as an association list in insertion order.\<close>

definition get :: "('k \<times> 'v) list \<Rightarrow> 'k \<Rightarrow> 'v \<Rightarrow> 'v" where
  "get d k dflt = (case map_of d k of None \<Rightarrow> dflt | Some v \<Rightarrow> v)"

definition unknown :: str where
  "unknown = ascii ''unknown''"

text \<open>
  The loop over \<open>data_part.split(", '")\<close> that fills the dict \<open>fields\<close>, here
  \<open>flds\<close>.  \<open>None\<close> stands for the exception of unpacking
  \<open>item.split(':', 1)\<close> into other than two names.
\<close>

fun parse_items :: "runtime \<Rightarrow> (str \<times> str) list \<Rightarrow> str list \<Rightarrow> (str \<times> str) list option" where
  "parse_items E flds [] = Some flds"
| "parse_items E flds (item # items) =
     (if 58 \<notin> set item then parse_items E flds items
      else (case split1 [58] item of
              [key, val] \<Rightarrow>
                parse_items E
                  (AList.update (strip_chars [32, 39] key) (strip_chars [39] (strip E val)) flds)
                  items
            | _ \<Rightarrow> None))"

text \<open>
  The three Cyrillic keys of the login, of the organisational level 5 and of the full name
  (transliterated: Login, Org_uroven_5, FIO), as code points.
\<close>

definition key_login :: str where
  "key_login = [1051, 1086, 1075, 1080, 1085]"

definition key_org_unit :: str where
  "key_org_unit = [1054, 1088, 1075, 95, 1091, 1088, 1086, 1074, 1077, 1085, 1100, 95, 53]"

definition key_fullname :: str where
  "key_fullname = [1060, 1048, 1054]"

definition build_entry :: "py_datetime \<Rightarrow> (str \<times> str) list \<Rightarrow> entry" where
  "build_entry ts flds =
     \<lparr> timestamp = ts,
       client_ip = get flds (ascii ''Client_IP'') unknown,
       client_hostname = get flds (ascii ''Client_Hostname'') unknown,
       server = get flds (ascii ''Server'') unknown,
       event = get flds (ascii ''Event'') unknown,
       project = get flds (ascii ''Project'') unknown,
       login = get flds key_login unknown,
       org_unit = get flds key_org_unit unknown,
       fullname = get flds key_fullname unknown \<rparr>"

text \<open>The line after \<open>strip\<close> and the removal of the markers \<open>('\<close> and \<open>')\<close>.\<close>

definition clean_line :: "runtime \<Rightarrow> str \<Rightarrow> str" where
  "clean_line E log_line =
     replace [39, 41] [] (replace [40, 39] [] (strip E log_line))"

text \<open>\<open>None\<close> is the \<open>return None\<close> of the exception handler.\<close>

definition parse_log_entry :: "runtime \<Rightarrow> str \<Rightarrow> entry option" where
  "parse_log_entry E log_line =
     (case split1 (ascii '' - '') (clean_line E log_line) of
        [time_part, data_part] \<Rightarrow>
          (case split [44] time_part of
             [] \<Rightarrow> None
           | t # _ \<Rightarrow>
               (case strptime E t of
                  None \<Rightarrow> None
                | Some ts \<Rightarrow>
                    (case parse_items E [] (split (ascii '', '' @ [39]) data_part) of
                       None \<Rightarrow> None
                     | Some flds \<Rightarrow> Some (build_entry ts flds))))
      | _ \<Rightarrow> None)"

text \<open>\<open>entry['date'] = entry['timestamp'].date()\<close>\<close>

definition with_date :: "entry \<Rightarrow> log" where
  "with_date e = entry.extend e (log.fields (date_of (timestamp e)))"

text \<open>\<open>parsed\<close> is the list the loop of \<open>process_logs\<close> has built so far.\<close>

fun process_logs_from :: "runtime \<Rightarrow> log list \<Rightarrow> str list \<Rightarrow> log list" where
  "process_logs_from E parsed [] = parsed"
| "process_logs_from E parsed (line # raw_logs) =
     (case parse_log_entry E line of
        None \<Rightarrow> process_logs_from E parsed raw_logs
      | Some e \<Rightarrow> process_logs_from E (parsed @ [with_date e]) raw_logs)"

definition process_logs :: "runtime \<Rightarrow> str list \<Rightarrow> log list" where
  "process_logs E raw_logs = process_logs_from E [] raw_logs"

section \<open>Unit attribution\<close>

text \<open>
  The names of the six units: a Cyrillic word (transliterated: Upravlenie), a blank and
  the number of the unit.
\<close>

definition upravlenie :: "nat \<Rightarrow> str" where
  "upravlenie n = [1059, 1087, 1088, 1072, 1074, 1083, 1077, 1085, 1080, 1077, 32, 48 + n]"

definition get_departments :: "str list" where
  "get_departments =
     [upravlenie 1, upravlenie 2, upravlenie 3, upravlenie 4, upravlenie 5, upravlenie 6]"

text \<open>\<open>xs[i]\<close>: a negative index counts from the end; \<open>None\<close> is \<open>IndexError\<close>.\<close>

definition getitem :: "'a list \<Rightarrow> int \<Rightarrow> 'a option" where
  "getitem xs i =
     (if 0 \<le> i \<and> i < int (length xs) then Some (xs ! nat i)
      else if i < 0 \<and> - int (length xs) \<le> i then Some (xs ! nat (int (length xs) + i))
      else None)"

text \<open>
  The body of the \<open>try\<close> block of \<open>assign_departments_to_logs\<close> for one address;
  \<open>None\<close> means that it raised (\<open>int\<close> refused the octet, or the list of departments
  is empty).
\<close>

definition clean_ip :: "runtime \<Rightarrow> str \<Rightarrow> str" where
  "clean_ip E ip = join [46] (take 4 (filter (isdigit E) (split [46] ip)))"

definition last_octet :: "runtime \<Rightarrow> str \<Rightarrow> int option" where
  "last_octet E ip =
     (if count [46] (clean_ip E ip) = 3
      then (case getitem (split [46] (clean_ip E ip)) (- 1) of
              None \<Rightarrow> None
            | Some t \<Rightarrow> py_int E t)
      else Some 0)"

definition try_department :: "runtime \<Rightarrow> str list \<Rightarrow> str \<Rightarrow> str option" where
  "try_department E departments ip =
     (case last_octet E ip of
        None \<Rightarrow> None
      | Some n \<Rightarrow>
          if departments = [] then None
          else getitem departments (n mod int (length departments)))"

text \<open>
  \<open>try\<close> and \<open>except\<close> together: an exception in the body selects \<open>departments[0]\<close>,
  which itself raises on an empty list (\<open>None\<close>).
\<close>

definition department_for :: "runtime \<Rightarrow> str list \<Rightarrow> str \<Rightarrow> str option" where
  "department_for E departments ip =
     (case try_department E departments ip of
        Some d \<Rightarrow> Some d
      | None \<Rightarrow> getitem departments 0)"

text \<open>\<open>log['department'] = d\<close>\<close>

definition with_department :: "log \<Rightarrow> str \<Rightarrow> dlog" where
  "with_department l d = log.extend l (dlog.fields d)"

fun assign_departments_to_logs :: "runtime \<Rightarrow> log list \<Rightarrow> str list \<Rightarrow> dlog list option" where
  "assign_departments_to_logs E [] departments = Some []"
| "assign_departments_to_logs E (l # logs) departments =
     (case department_for E departments (client_ip l) of
        None \<Rightarrow> None
      | Some d \<Rightarrow>
          (case assign_departments_to_logs E logs departments of
             None \<Rightarrow> None
           | Some rest \<Rightarrow> Some (with_department l d # rest)))"

section \<open>Period resolution\<close>

subsection \<open>\<open>relativedelta\<close>\<close>

text \<open>
  Of dateutil's \<open>relativedelta\<close> the program reads the fields \<open>years\<close> and
  \<open>months\<close> only, and builds it in two ways: as \<open>relativedelta(months=+1)\<close> and
  as the difference \<open>relativedelta(end_date, start_date)\<close> of two dates.
\<close>

record relativedelta =
  rd_years :: int
  rd_months :: int

text \<open>\<open>_set_months\<close>: more than eleven months carry over into years, the sign kept.\<close>

definition set_months :: "int \<Rightarrow> relativedelta" where
  "set_months n =
     (if 11 < \<bar>n\<bar>
      then (let s = (if n < 0 then - 1 else 1)
            in \<lparr>rd_years = ((n * s) div 12) * s, rd_months = ((n * s) mod 12) * s\<rparr>)
      else \<lparr>rd_years = 0, rd_months = n\<rparr>)"

text \<open>
  \<open>d + delta\<close>: the years are added; if the delta has months, they are added and the
  month is brought back into 1..12 with a carry of one year; the day is cut down to the
  length of the month reached, and the date rebuilt.  \<open>None\<close> stands for the failed assertion on \<open>months\<close> and for the
  exceptions of \<open>calendar.monthrange\<close> and \<open>date.replace\<close>.
\<close>

definition add_delta :: "py_date \<Rightarrow> relativedelta \<Rightarrow> py_date option" where
  "add_delta d r =
     (if rd_months r \<noteq> 0 \<and> \<not> (1 \<le> \<bar>rd_months r\<bar> \<and> \<bar>rd_months r\<bar> \<le> 12) then None
      else (let y0 = year d + rd_years r;
                m0 = month d + rd_months r;
                carry = (if rd_months r = 0 then 0 else if 12 < m0 then 1
                         else if m0 < 1 then - 1 else 0);
                y = y0 + carry;
                m = m0 - 12 * carry
            in if 1 \<le> m \<and> m \<le> 12 then mk_date y m (min (days_in_month y m) (day d))
               else None))"

text \<open>
  The loop of \<open>relativedelta(dt1, dt2)\<close>: \<open>n\<close> months are added to \<open>dt2\<close>; as long as
  the date reached lies beyond \<open>dt1\<close>, seen from \<open>dt2\<close>, \<open>n\<close> moves one month back
  towards zero.
\<close>

function settle :: "py_date \<Rightarrow> py_date \<Rightarrow> int \<Rightarrow> relativedelta option" where
  "settle dt1 dt2 n =
     (case add_delta dt2 (set_months n) of
        None \<Rightarrow> None
      | Some dtm \<Rightarrow>
          if (if date_less dt1 dt2 then date_less dtm dt1 else date_less dt1 dtm)
          then settle dt1 dt2 (n + (if date_less dt1 dt2 then 1 else - 1))
          else Some (set_months n))"
  by pat_completeness auto
termination
proof (relation "measure (\<lambda>(dt1, dt2, n).
      if date_less dt1 dt2 then nat (12 * year dt1 + 13 - (12 * year dt2 + month dt2) - n)
      else nat (12 * year dt2 + month dt2 + n - 12 * year dt1))")
  show "wf (measure (\<lambda>(dt1, dt2, n).
      if date_less dt1 dt2 then nat (12 * year dt1 + 13 - (12 * year dt2 + month dt2) - n)
      else nat (12 * year dt2 + month dt2 + n - 12 * year dt1)))"
    by simp
next
  fix dt1 dt2 :: py_date and n :: int and dtm :: py_date
  assume a: "add_delta dt2 (set_months n) = Some dtm"
    and c: "if date_less dt1 dt2 then date_less dtm dt1 else date_less dt1 dtm"
  have sm: "12 * rd_years (set_months n) + rd_months (set_months n) = n"
    by (simp add: set_months_def Let_def) presburger
  have idx: "12 * year dtm + month dtm = 12 * year dt2 + month dt2 + n
      \<and> 1 \<le> month dtm \<and> month dtm \<le> 12"
    using a sm
    by (auto simp: add_delta_def mk_date_def Let_def split: if_splits)
  show "((dt1, dt2, n + (if date_less dt1 dt2 then 1 else - 1)), (dt1, dt2, n))
      \<in> measure (\<lambda>(dt1, dt2, n).
      if date_less dt1 dt2 then nat (12 * year dt1 + 13 - (12 * year dt2 + month dt2) - n)
      else nat (12 * year dt2 + month dt2 + n - 12 * year dt1))"
  proof (cases "date_less dt1 dt2")
    case True
    with c have "year dtm \<le> year dt1" by (auto simp: date_less_def)
    with idx True show ?thesis by simp
  next
    case False
    with c have "year dt1 \<le> year dtm" by (auto simp: date_less_def)
    with idx False show ?thesis by simp
  qed
qed

definition relativedelta_between :: "py_date \<Rightarrow> py_date \<Rightarrow> relativedelta option" where
  "relativedelta_between dt1 dt2 =
     settle dt1 dt2 ((year dt1 - year dt2) * 12 + (month dt1 - month dt2))"

text \<open>\<open>delta.years * 12 + delta.months\<close> for \<open>delta = relativedelta(end_date, start_date)\<close>.\<close>

definition total_months :: "py_date \<Rightarrow> py_date \<Rightarrow> int option" where
  "total_months start_date end_date =
     (case relativedelta_between end_date start_date of
        None \<Rightarrow> None
      | Some delta \<Rightarrow> Some (rd_years delta * 12 + rd_months delta))"

subsection \<open>\<open>get_month_range\<close>\<close>

function month_loop :: "py_date \<Rightarrow> py_date \<Rightarrow> (int \<times> int) list \<Rightarrow> (int \<times> int) list option" where
  "month_loop current end_date months =
     (if date_le current end_date
      then (case add_delta current \<lparr>rd_years = 0, rd_months = 1\<rparr> of
              None \<Rightarrow> None
            | Some next \<Rightarrow> month_loop next end_date (months @ [(year current, month current)]))
      else Some months)"
  by pat_completeness auto
termination
proof (relation "measure (\<lambda>(current, end_date, months).
      nat (12 * year end_date + 24 - (12 * year current + month current)))")
  show "wf (measure (\<lambda>(current, end_date, months).
      nat (12 * year end_date + 24 - (12 * year current + month current))))"
    by simp
next
  fix current end_date :: py_date and months :: "(int \<times> int) list" and nxt :: py_date
  assume le: "date_le current end_date"
    and a: "add_delta current \<lparr>rd_years = 0, rd_months = 1\<rparr> = Some nxt"
  have idx: "12 * year nxt + month nxt = 12 * year current + month current + 1
      \<and> month nxt \<le> 12 \<and> year nxt \<le> year current + 1"
    using a by (auto simp: add_delta_def mk_date_def Let_def split: if_splits)
  from le have "year current \<le> year end_date"
    by (auto simp: date_le_def date_less_def)
  with idx show "((nxt, end_date, months @ [(year current, month current)]),
        (current, end_date, months))
      \<in> measure (\<lambda>(current, end_date, months).
      nat (12 * year end_date + 24 - (12 * year current + month current)))"
    by simp
qed

text \<open>\<open>None\<close> is the \<open>ValueError\<close> of a date constructor or of the month addition.\<close>

definition get_month_range :: "py_date \<Rightarrow> py_date \<Rightarrow> (int \<times> int) list option" where
  "get_month_range start end_date =
     (case mk_date (year start) (month start) 1 of
        None \<Rightarrow> None
      | Some current \<Rightarrow>
          (case mk_date (year end_date) (month end_date) 1 of
             None \<Rightarrow> None
           | Some e \<Rightarrow>
               (case month_loop current e [] of
                  None \<Rightarrow> None
                | Some months \<Rightarrow> Some (sort (remdups months)))))"

section \<open>Aggregation\<close>

text \<open>
  The dicts of the program are association lists in insertion order, so that
  \<open>items()\<close> is the list itself.  \<open>incr k d\<close> is \<open>d[k] += 1\<close> on a
  \<open>defaultdict(int)\<close>.
\<close>

definition incr :: "'k \<Rightarrow> ('k \<times> int) list \<Rightarrow> ('k \<times> int) list" where
  "incr k d = AList.update k (get d k 0 + 1) d"

record stats =
  total_cnt :: int
  months :: "((int \<times> int) \<times> int) list"

definition empty_stats :: stats where
  "empty_stats = \<lparr>total_cnt = 0, months = []\<rparr>"

definition year_month :: "'a log_scheme \<Rightarrow> int \<times> int" where
  "year_month l = (year (date l), month (date l))"

subsection \<open>The date filter and the matrices of \<open>main\<close>\<close>

definition filtered_logs :: "py_date \<Rightarrow> py_date \<Rightarrow> dlog list \<Rightarrow> dlog list" where
  "filtered_logs start_date end_date parsed_logs =
     filter (\<lambda>l. date_le start_date (date l) \<and> date_le (date l) end_date) parsed_logs"

text \<open>The dict comprehension that starts \<open>dept_matrix\<close>.\<close>

definition dept_matrix_init :: "str list \<Rightarrow> (str \<times> stats) list" where
  "dept_matrix_init departments = foldl (\<lambda>m dept. AList.update dept empty_stats m) [] departments"

text \<open>
  One turn of the counting loop.  A department that is no key of the matrix raises
  \<open>KeyError\<close> at the first statement of the \<open>try\<close> block, and the record is passed
  over.
\<close>

definition count_log :: "(str \<times> stats) list \<Rightarrow> dlog \<Rightarrow> (str \<times> stats) list" where
  "count_log m l =
     (case map_of m (department l) of
        None \<Rightarrow> m
      | Some st \<Rightarrow>
          AList.update (department l)
            \<lparr>total_cnt = total_cnt st + 1, months = incr (year_month l) (months st)\<rparr> m)"

definition dept_matrix :: "str list \<Rightarrow> dlog list \<Rightarrow> (str \<times> stats) list" where
  "dept_matrix departments logs = foldl count_log (dept_matrix_init departments) logs"

text \<open>The \<open>defaultdict\<close> of the employees of the selected department.\<close>

definition count_employee :: "(str \<times> stats) list \<Rightarrow> dlog \<Rightarrow> (str \<times> stats) list" where
  "count_employee m l =
     (if fullname l = unknown then m
      else (let st = get m (fullname l) empty_stats
            in AList.update (fullname l)
                 \<lparr>total_cnt = total_cnt st + 1, months = incr (year_month l) (months st)\<rparr> m))"

definition employee_matrix :: "str \<Rightarrow> dlog list \<Rightarrow> (str \<times> stats) list" where
  "employee_matrix selected_dept logs =
     foldl count_employee [] (filter (\<lambda>l. department l = selected_dept) logs)"

text \<open>
  The flow of \<open>main\<close> from the raw lines to its tables: \<open>process_logs\<close>,
  \<open>assign_departments_to_logs\<close> with the fixed departments, the date filter, the
  month columns of \<open>get_month_range\<close>, and the unit matrix.  The result holds the
  filtered records, the month columns and the matrix; \<open>None\<close> is an exception, which
  \<open>main\<close> does not catch.
\<close>

definition pipeline ::
  "runtime \<Rightarrow> str list \<Rightarrow> py_date \<Rightarrow> py_date
     \<Rightarrow> (dlog list \<times> (int \<times> int) list \<times> (str \<times> stats) list) option" where
  "pipeline E raw_logs start_date end_date =
     (case assign_departments_to_logs E (process_logs E raw_logs) get_departments of
        None \<Rightarrow> None
      | Some parsed_logs \<Rightarrow>
          (let logs = filtered_logs start_date end_date parsed_logs
           in case get_month_range start_date end_date of
                None \<Rightarrow> None
              | Some display_months \<Rightarrow>
                  Some (logs, display_months, dept_matrix get_departments logs)))"

subsection \<open>Chart data\<close>

datatype freq = Month | Year

text \<open>
  \<open>strftime\<close> for the two formats of the program, \<open>%Y-%m\<close> and \<open>%Y\<close>; the year is
  printed without leading zeros, as the C library of Linux does (the platforms agree
  from the year 1000 on).
\<close>

definition strftime :: "py_date \<Rightarrow> str \<Rightarrow> str" where
  "strftime d date_format =
     (if date_format = ascii ''%Y-%m'' then py_str (year d) @ [45] @ fmt_02d (month d)
      else if date_format = ascii ''%Y'' then py_str (year d)
      else date_format)"

definition freq_of :: "int \<Rightarrow> freq" where
  "freq_of n = (if n \<le> 12 then Month else Year)"

definition format_of :: "freq \<Rightarrow> str" where
  "format_of f = (if f = Month then ascii ''%Y-%m'' else ascii ''%Y'')"

text \<open>The label of one record in \<open>prepare_chart_data\<close>.\<close>

definition chart_period :: "freq \<Rightarrow> py_date \<Rightarrow> py_date \<Rightarrow> str" where
  "chart_period f end_date d =
     (if f = Year
      then (if year d = year end_date \<and> month d \<le> month end_date
            then py_str (year d) @ [45] @ fmt_02d (month d)
            else strftime d (format_of f))
      else strftime d (format_of f))"

definition chart_count ::
  "freq \<Rightarrow> py_date \<Rightarrow> (str \<times> (str \<times> int) list) list \<Rightarrow> dlog \<Rightarrow> (str \<times> (str \<times> int) list) list" where
  "chart_count f end_date data l =
     AList.update (department l)
       (incr (chart_period f end_date (date l)) (get data (department l) [])) data"

text \<open>The rows of the data frame: unit, period, visits.\<close>

definition chart_rows :: "str list \<Rightarrow> (str \<times> (str \<times> int) list) list \<Rightarrow> (str \<times> str \<times> int) list" where
  "chart_rows departments data =
     concat (map (\<lambda>dept. map (\<lambda>(period, cnt). (dept, period, cnt)) (get data dept [])) departments)"

definition prepare_chart_data ::
  "dlog list \<Rightarrow> py_date \<Rightarrow> py_date \<Rightarrow> ((str \<times> str \<times> int) list \<times> freq) option" where
  "prepare_chart_data logs start_date end_date =
     (case total_months start_date end_date of
        None \<Rightarrow> None
      | Some n \<Rightarrow>
          Some (chart_rows get_departments
                  (foldl (chart_count (freq_of n) end_date) [] logs), freq_of n))"

text \<open>The label of one counted month in \<open>prepare_employee_data\<close>.\<close>

definition employee_period :: "freq \<Rightarrow> py_date \<Rightarrow> int \<times> int \<Rightarrow> str option" where
  "employee_period f end_date ym =
     (case mk_date (fst ym) (snd ym) 1 of
        None \<Rightarrow> None
      | Some d \<Rightarrow>
          Some (if f = Year \<and> year d = year end_date \<and> month d \<le> month end_date
                then py_str (fst ym) @ [45] @ fmt_02d (snd ym)
                else strftime d (format_of f)))"

definition employee_rows ::
  "freq \<Rightarrow> py_date \<Rightarrow> (str \<times> stats) list \<Rightarrow> (str \<times> str \<times> int) list option" where
  "employee_rows f end_date employee_logs =
     those (concat (map (\<lambda>(employee, st).
        map (\<lambda>(ym, cnt). map_option (\<lambda>period. (employee, period, cnt)) (employee_period f end_date ym))
          (months st)) employee_logs))"

definition prepare_employee_data ::
  "(str \<times> stats) list \<Rightarrow> py_date \<Rightarrow> py_date \<Rightarrow> ((str \<times> str \<times> int) list \<times> freq) option" where
  "prepare_employee_data employee_logs start_date end_date =
     (case total_months start_date end_date of
        None \<Rightarrow> None
      | Some n \<Rightarrow>
          (case employee_rows (freq_of n) end_date employee_logs of
             None \<Rightarrow> None
           | Some rows \<Rightarrow> Some (rows, freq_of n)))"

section \<open>Sample data\<close>

text \<open>
  The line of the specification's example,
  \<^verbatim>\<open>2024-01-15 09:00:00,123 - ('Client_IP:'10.0.0.7', 'FIO:'Ivanov I.I.'')\<close>
  with the Cyrillic key of the full name in the place of \<open>FIO\<close>,
  and the record it parses to.
\<close>

definition example_line :: str where
  "example_line =
     ascii ''2024-01-15 09:00:00,123 - ('' @ [39] @ ascii ''Client_IP:'' @ [39]
     @ ascii ''10.0.0.7'' @ [39] @ ascii '', '' @ [39] @ key_fullname @ [58, 39]
     @ ascii ''Ivanov I.I.'' @ [39, 39, 41]"

definition example_entry :: entry where
  "example_entry =
     \<lparr> timestamp = \<lparr>year = 2024, month = 1, day = 15, hour = 9, minute = 0, second = 0\<rparr>,
       client_ip = ascii ''10.0.0.7'', client_hostname = unknown, server = unknown,
       event = unknown, project = unknown, login = unknown, org_unit = unknown,
       fullname = ascii ''Ivanov I.I.'' \<rparr>"

definition example_log :: log where
  "example_log = with_date example_entry"

definition example_dlog :: dlog where
  "example_dlog = with_department example_log (upravlenie 2)"

text \<open>
  A line without the separator \<open>" - "\<close>, which the removal of the marker \<open>('\<close>
  produces: \<^verbatim>\<open>2024-01-15 09:00:00 ('- a:b\<close>; a line without marker and separator; and
  a line whose time part is no timestamp.
\<close>

definition marker_line :: str where
  "marker_line = ascii ''2024-01-15 09:00:00 ('' @ [39] @ ascii ''- a:b''"

definition marker_entry :: entry where
  "marker_entry =
     \<lparr> timestamp = \<lparr>year = 2024, month = 1, day = 15, hour = 9, minute = 0, second = 0\<rparr>,
       client_ip = unknown, client_hostname = unknown, server = unknown,
       event = unknown, project = unknown, login = unknown, org_unit = unknown,
       fullname = unknown \<rparr>"

definition no_separator_line :: str where
  "no_separator_line = ascii ''restart of the portal''"

definition bad_time_line :: str where
  "bad_time_line = ascii ''yesterday - Event:login''"

text \<open>
  A visit of the example's employee on a given date, attributed to the second unit.
\<close>

definition visit_on :: "py_date \<Rightarrow> dlog" where
  "visit_on d =
     with_department
       (with_date (example_entry\<lparr>timestamp :=
          \<lparr>year = year d, month = month d, day = day d, hour = 9, minute = 0, second = 0\<rparr>\<rparr>))
       (upravlenie 2)"

definition visits_2022 :: "dlog list" where
  "visits_2022 =
     [visit_on \<lparr>year = 2022, month = 1, day = 10\<rparr>,
      visit_on \<lparr>year = 2022, month = 2, day = 3\<rparr>,
      visit_on \<lparr>year = 2022, month = 2, day = 17\<rparr>]"

text \<open>
  A line whose time part is not padded to the pattern YYYY-MM-DD HH:MM:SS,
  \<^verbatim>\<open>2024-1-5 9:0:0 - Event:x\<close>, and the record it parses to.  \<open>iso_pattern\<close> is the
  pattern as the specification writes it: four digits, a hyphen, two digits, a hyphen,
  two digits, a blank, and three pairs of digits separated by colons.
\<close>

definition unpadded_line :: str where
  "unpadded_line = ascii ''2024-1-5 9:0:0 - Event:x''"

definition unpadded_entry :: entry where
  "unpadded_entry =
     \<lparr> timestamp = \<lparr>year = 2024, month = 1, day = 5, hour = 9, minute = 0, second = 0\<rparr>,
       client_ip = unknown, client_hostname = unknown, server = unknown,
       event = ascii ''x'', project = unknown, login = unknown, org_unit = unknown,
       fullname = unknown \<rparr>"

definition iso_pattern :: "str \<Rightarrow> bool" where
  "iso_pattern t =
     (length t = 19
      \<and> list_all (\<lambda>i. 48 \<le> t ! i \<and> t ! i \<le> 57) [0, 1, 2, 3, 5, 6, 8, 9, 11, 12, 14, 15, 17, 18]
      \<and> t ! 4 = 45 \<and> t ! 7 = 45 \<and> t ! 10 = 32 \<and> t ! 13 = 58 \<and> t ! 16 = 58)"

section \<open>Properties\<close>

subsection \<open>The character tables below U+0660\<close>

lemma cpython_isspace:
  "isspace_cp cpython c = ((9 \<le> c \<and> c \<le> 13) \<or> (28 \<le> c \<and> c \<le> 32) \<or> c = 133 \<or> c = 160
        \<or> c = 5760 \<or> (8192 \<le> c \<and> c \<le> 8202) \<or> c = 8232 \<or> c = 8233 \<or> c = 8239
        \<or> c = 8287 \<or> c = 12288)"
  by (simp add: cpython_def)

lemma cpython_decimal_low:
  "c < 1632 \<Longrightarrow> decimal_cp cpython c = (if 48 \<le> c \<and> c \<le> 57 then Some (c - 48) else None)"
  by (simp add: cpython_def decimal_blocks_def)

lemma cpython_isdigit_low:
  "c < 1632 \<Longrightarrow> isdigit_cp cpython c = ((48 \<le> c \<and> c \<le> 57) \<or> c = 178 \<or> c = 179 \<or> c = 185)"
  by (auto simp: cpython_def decimal_blocks_def other_digits_def)

lemma cpython_limit: "int_max_str_digits cpython = 4300"
  by (simp add: cpython_def)

lemmas cpython_defs = cpython_isspace cpython_decimal_low cpython_isdigit_low cpython_limit

subsection \<open>Association lists and the matrices\<close>


lemma update_set_subset: "set (AList.update k v al) \<subseteq> insert (k, v) (set al)"
  by (induction al) auto

lemma update_sum:
  "sum_list (map (\<lambda>p. g (snd p)) (AList.update k v al)) =
     sum_list (map (\<lambda>p. g (snd p)) al)
       - (case map_of al k of None \<Rightarrow> 0 | Some old \<Rightarrow> g old) + (g v :: int)"
  by (induction al) auto

lemma incr_sum: "sum_list (map snd (incr k d)) = sum_list (map snd d) + 1"
  using update_sum [of "\<lambda>x. x" k "get d k 0 + 1" d]
  by (simp add: incr_def get_def split: option.splits)

lemma count_log_keys: "map fst (count_log m l) = map fst m"
proof (cases "map_of m (department l)")
  case None
  then show ?thesis by (simp add: count_log_def)
next
  case (Some st)
  then have "(department l, st) \<in> set m" by (rule map_of_SomeD)
  then have "department l \<in> fst ` set m" by force
  then show ?thesis by (simp add: count_log_def Some update_keys)
qed

lemma dept_matrix_keys_from: "map fst (foldl count_log m logs) = map fst m"
  by (induction logs arbitrary: m) (simp_all add: count_log_keys)

lemma departments_distinct: "distinct get_departments"
  by (simp add: get_departments_def upravlenie_def)

lemma dept_matrix_init_departments:
  "dept_matrix_init get_departments = map (\<lambda>d. (d, empty_stats)) get_departments"
  by (simp add: dept_matrix_init_def get_departments_def upravlenie_def)

lemma count_log_other:
  "department l \<noteq> d \<Longrightarrow> map_of (count_log m l) d = map_of m d"
  by (simp add: count_log_def update_conv' split: option.splits)

lemma dept_matrix_untouched_from:
  "\<forall>l\<in>set logs. department l \<noteq> d \<Longrightarrow> map_of (foldl count_log m logs) d = map_of m d"
  by (induction logs arbitrary: m) (simp_all add: count_log_other)



lemma getitem_in: "getitem xs i = Some x \<Longrightarrow> x \<in> set xs"
  by (auto simp: getitem_def split: if_splits)

lemma departments_length: "length get_departments = 6"
  by (simp add: get_departments_def)

lemma department_for_total:
  "\<exists>d. department_for E get_departments ip = Some d \<and> d \<in> set get_departments"
proof (cases "try_department E get_departments ip")
  case None
  have "getitem get_departments 0 = Some (upravlenie 1)"
    by (simp add: getitem_def get_departments_def)
  with None show ?thesis
    by (simp add: department_for_def get_departments_def)
next
  case (Some d)
  then have "d \<in> set get_departments"
    by (auto simp: try_department_def split: option.splits if_splits dest: getitem_in)
  with Some show ?thesis by (simp add: department_for_def)
qed

lemma assign_total:
  "\<exists>out. assign_departments_to_logs E logs get_departments = Some out
     \<and> (\<forall>l\<in>set out. department l \<in> set get_departments)"
proof (induction logs)
  case Nil
  show ?case by simp
next
  case (Cons l logs)
  obtain d where d: "department_for E get_departments (client_ip l) = Some d"
      "d \<in> set get_departments"
    using department_for_total by blast
  from Cons obtain out where out: "assign_departments_to_logs E logs get_departments = Some out"
      "\<forall>l\<in>set out. department l \<in> set get_departments"
    by blast
  have "department (with_department l d) = d"
    by (simp add: with_department_def log.extend_def dlog.fields_def)
  with d out show ?case by simp
qed

lemma count_log_total:
  "sum_list (map (\<lambda>p. total_cnt (snd p)) (count_log m l)) =
     sum_list (map (\<lambda>p. total_cnt (snd p)) m) + (if department l \<in> fst ` set m then 1 else 0)"
proof (cases "map_of m (department l)")
  case None
  then have "department l \<notin> fst ` set m" by (simp add: map_of_eq_None_iff)
  with None show ?thesis by (simp add: count_log_def)
next
  case (Some st)
  then have "(department l, st) \<in> set m" by (rule map_of_SomeD)
  then have "department l \<in> fst ` set m" by force
  then show ?thesis
    using update_sum [of total_cnt "department l" _ m] Some
    by (simp add: count_log_def)
qed

lemma count_log_buckets:
  assumes "\<forall>p\<in>set m. sum_list (map snd (months (snd p))) = total_cnt (snd p)"
  shows "\<forall>p\<in>set (count_log m l). sum_list (map snd (months (snd p))) = total_cnt (snd p)"
proof (cases "map_of m (department l)")
  case None
  with assms show ?thesis by (simp add: count_log_def)
next
  case (Some st)
  then have "(department l, st) \<in> set m" by (rule map_of_SomeD)
  with assms have st: "sum_list (map snd (months st)) = total_cnt st" by force
  show ?thesis
  proof
    fix p assume "p \<in> set (count_log m l)"
    then have "p \<in> insert (department l,
        \<lparr>total_cnt = total_cnt st + 1, months = incr (year_month l) (months st)\<rparr>) (set m)"
      using update_set_subset Some by (fastforce simp: count_log_def)
    with assms st show "sum_list (map snd (months (snd p))) = total_cnt (snd p)"
      by (auto simp: incr_sum)
  qed
qed

lemma dept_matrix_from_law:
  assumes "\<forall>p\<in>set m. sum_list (map snd (months (snd p))) = total_cnt (snd p)"
    and "\<forall>l\<in>set logs. department l \<in> fst ` set m"
  shows "(\<forall>p\<in>set (foldl count_log m logs). sum_list (map snd (months (snd p))) = total_cnt (snd p))
     \<and> sum_list (map (\<lambda>p. total_cnt (snd p)) (foldl count_log m logs)) =
         sum_list (map (\<lambda>p. total_cnt (snd p)) m) + int (length logs)"
  using assms
proof (induction logs arbitrary: m)
  case Nil
  then show ?case by simp
next
  case (Cons l logs)
  have keys: "fst ` set (count_log m l) = fst ` set m"
    using count_log_keys [of m l] by (metis list.set_map)
  have b: "\<forall>p\<in>set (count_log m l). sum_list (map snd (months (snd p))) = total_cnt (snd p)"
    using Cons.prems(1) by (rule count_log_buckets)
  have k: "\<forall>x\<in>set logs. department x \<in> fst ` set (count_log m l)"
    unfolding keys using Cons.prems(2) by simp
  from Cons.IH [OF b k] Cons.prems(2) show ?case
    by (simp add: count_log_total)
qed




lemma example_department:
  "department_for cpython get_departments (ascii ''10.0.0.7'') = Some (upravlenie 2)"
  by (simp add: department_for_def try_department_def last_octet_def clean_ip_def split_def
      isdigit_def cpython_defs ascii_def getitem_def py_int_def int_space_def int_digit_def
      digits_value_def Let_def get_departments_def)

lemma example_assign:
  "assign_departments_to_logs cpython [example_log] get_departments = Some [example_dlog]"
  using example_department
  by (simp add: example_log_def example_dlog_def example_entry_def with_date_def
      entry.extend_def log.fields_def)

lemma map_of_const: "d \<in> set ds \<Longrightarrow> map_of (map (\<lambda>d. (d, e)) ds) d = Some e"
  by (induction ds) auto

text \<open>
  Claim C7.  Whatever records are counted (none at all included), the rows of the
  per-unit matrix are exactly the six units of \<open>get_departments\<close>, in their order;
  before counting every unit has total 0 and no buckets; and a unit that no record
  belongs to is still a row, with total 0 and no buckets.
\<close>

theorem unit_coverage:
  "map fst (dept_matrix get_departments logs) = get_departments
   \<and> length get_departments = 6 \<and> distinct get_departments
   \<and> dept_matrix_init get_departments =
       map (\<lambda>d. (d, \<lparr>total_cnt = 0, months = []\<rparr>)) get_departments
   \<and> (\<forall>d\<in>set get_departments. (\<forall>l\<in>set logs. department l \<noteq> d) \<longrightarrow>
         map_of (dept_matrix get_departments logs) d = Some \<lparr>total_cnt = 0, months = []\<rparr>)"
proof -
  have keys: "map fst (dept_matrix get_departments logs) = get_departments"
    by (simp add: dept_matrix_def dept_matrix_keys_from dept_matrix_init_departments comp_def)
  have init: "dept_matrix_init get_departments =
       map (\<lambda>d. (d, \<lparr>total_cnt = 0, months = []\<rparr>)) get_departments"
    using dept_matrix_init_departments by (simp add: empty_stats_def)
  have zero: "map_of (dept_matrix get_departments logs) d = Some \<lparr>total_cnt = 0, months = []\<rparr>"
    if "d \<in> set get_departments" "\<forall>l\<in>set logs. department l \<noteq> d" for d
    using that by (simp add: dept_matrix_def dept_matrix_untouched_from init map_of_const)
  from keys init zero show ?thesis
    using departments_length departments_distinct by blast
qed

theorem unit_coverage_witness:
  "upravlenie 1 \<in> set get_departments
   \<and> department example_dlog \<noteq> upravlenie 1
   \<and> map_of (dept_matrix get_departments [example_dlog]) (upravlenie 1)
       = Some \<lparr>total_cnt = 0, months = []\<rparr>
   \<and> map fst (dept_matrix get_departments [example_dlog]) = get_departments"
proof -
  have a: "upravlenie 1 \<in> set get_departments" by (simp add: get_departments_def)
  have b: "department example_dlog \<noteq> upravlenie 1"
    by (simp add: example_dlog_def with_department_def log.extend_def dlog.fields_def
        upravlenie_def)
  from unit_coverage [of "[example_dlog]"] a b show ?thesis by simp
qed

text \<open>
  Claim C2.  For records that went through unit attribution and the date filter, every
  unit's row of the matrix has a total equal to the sum of its per-(year, month) bucket
  counts, and the totals of all rows add up to the number of filtered records.
\<close>

theorem sum_law:
  assumes "assign_departments_to_logs E parsed_logs get_departments = Some attributed"
  shows "(\<forall>d\<in>set get_departments. \<exists>st.
            map_of (dept_matrix get_departments (filtered_logs start_date end_date attributed)) d
              = Some st
            \<and> sum_list (map snd (months st)) = total_cnt st)
     \<and> sum_list (map (\<lambda>(d, st). total_cnt st)
           (dept_matrix get_departments (filtered_logs start_date end_date attributed)))
         = int (length (filtered_logs start_date end_date attributed))"
proof -
  let ?logs = "filtered_logs start_date end_date attributed"
  let ?m = "dept_matrix_init get_departments"
  from assms assign_total [of E parsed_logs]
  have "\<forall>l\<in>set attributed. department l \<in> set get_departments" by auto
  then have in_keys: "\<forall>l\<in>set ?logs. department l \<in> fst ` set ?m"
    by (auto simp: filtered_logs_def dept_matrix_init_departments image_image)
  have start: "\<forall>p\<in>set ?m. sum_list (map snd (months (snd p))) = total_cnt (snd p)"
    by (auto simp: dept_matrix_init_departments empty_stats_def)
  have zero: "sum_list (map (\<lambda>p. total_cnt (snd p)) ?m) = 0"
    by (simp add: dept_matrix_init_departments empty_stats_def comp_def)
  note law = dept_matrix_from_law [OF start in_keys]
  have buckets: "\<exists>st. map_of (dept_matrix get_departments ?logs) d = Some st
      \<and> sum_list (map snd (months st)) = total_cnt st" if "d \<in> set get_departments" for d
  proof -
    from that have "d \<in> set (map fst (dept_matrix get_departments ?logs))"
      by (simp add: dept_matrix_def dept_matrix_keys_from dept_matrix_init_departments comp_def)
    then obtain st where st: "map_of (dept_matrix get_departments ?logs) d = Some st"
      by (metis list.set_map map_of_eq_None_iff not_Some_eq)
    then have "(d, st) \<in> set (dept_matrix get_departments ?logs)" by (rule map_of_SomeD)
    with law have "sum_list (map snd (months st)) = total_cnt st"
      by (force simp: dept_matrix_def)
    with st show ?thesis by blast
  qed
  have "(\<lambda>(d, st). total_cnt st) = (\<lambda>p :: str \<times> stats. total_cnt (snd p))"
    by (simp add: fun_eq_iff)
  with law zero have "sum_list (map (\<lambda>(d, st). total_cnt st) (dept_matrix get_departments ?logs))
      = int (length ?logs)"
    by (simp add: dept_matrix_def)
  with buckets show ?thesis by blast
qed

theorem sum_law_witness:
  "assign_departments_to_logs cpython [example_log] get_departments = Some [example_dlog]
   \<and> sum_list (map (\<lambda>(d, st). total_cnt st)
        (dept_matrix get_departments
          (filtered_logs \<lparr>year = 2024, month = 1, day = 1\<rparr> \<lparr>year = 2024, month = 1, day = 31\<rparr>
             [example_dlog]))) = 1
   \<and> (\<exists>st. map_of (dept_matrix get_departments
          (filtered_logs \<lparr>year = 2024, month = 1, day = 1\<rparr> \<lparr>year = 2024, month = 1, day = 31\<rparr>
             [example_dlog])) (upravlenie 2) = Some st
        \<and> sum_list (map snd (months st)) = total_cnt st)"
proof -
  have len: "length (filtered_logs \<lparr>year = 2024, month = 1, day = 1\<rparr>
      \<lparr>year = 2024, month = 1, day = 31\<rparr> [example_dlog]) = 1"
    by (simp add: filtered_logs_def example_dlog_def example_log_def example_entry_def
        with_department_def with_date_def log.extend_def dlog.fields_def entry.extend_def
        log.fields_def date_of_def date_le_def date_less_def)
  have u: "upravlenie 2 \<in> set get_departments" by (simp add: get_departments_def)
  from sum_law [OF example_assign, of "\<lparr>year = 2024, month = 1, day = 1\<rparr>"
      "\<lparr>year = 2024, month = 1, day = 31\<rparr>"] len u example_assign
  show ?thesis by auto
qed


subsection \<open>The chart rows\<close>

lemma get_cases: "get d k [] = [] \<or> (k, get d k []) \<in> set d"
  by (auto simp: get_def split: option.splits dest: map_of_SomeD)

lemma incr_positive:
  assumes "\<forall>p\<in>set d. 1 \<le> snd p"
  shows "\<forall>p\<in>set (incr k d). 1 \<le> snd p"
proof
  fix p assume "p \<in> set (incr k d)"
  then have p: "p = (k, get d k 0 + 1) \<or> p \<in> set d"
    using update_set_subset [of k "get d k 0 + 1" d] by (auto simp: incr_def)
  have "0 \<le> get d k 0"
  proof (cases "map_of d k")
    case None
    then show ?thesis by (simp add: get_def)
  next
    case (Some v)
    then have "(k, v) \<in> set d" by (rule map_of_SomeD)
    with assms have "1 \<le> v" by force
    with Some show ?thesis by (simp add: get_def)
  qed
  with p assms show "1 \<le> snd p" by auto
qed

lemma chart_count_inv:
  assumes "\<forall>q\<in>set data. (\<exists>x\<in>S. department x = fst q) \<and> (\<forall>p\<in>set (snd q). 1 \<le> snd p)"
    and "l \<in> S"
  shows "\<forall>q\<in>set (chart_count f e data l).
           (\<exists>x\<in>S. department x = fst q) \<and> (\<forall>p\<in>set (snd q). 1 \<le> snd p)"
proof
  fix q assume "q \<in> set (chart_count f e data l)"
  then have q: "q = (department l, incr (chart_period f e (date l)) (get data (department l) []))
      \<or> q \<in> set data"
    using update_set_subset by (fastforce simp: chart_count_def)
  have old: "\<forall>p\<in>set (get data (department l) []). 1 \<le> snd p"
    using get_cases [of data "department l"] assms(1) by force
  from q show "(\<exists>x\<in>S. department x = fst q) \<and> (\<forall>p\<in>set (snd q). 1 \<le> snd p)"
  proof
    assume "q = (department l, incr (chart_period f e (date l)) (get data (department l) []))"
    with incr_positive [OF old] assms(2) show ?thesis by auto
  next
    assume "q \<in> set data"
    with assms(1) show ?thesis by blast
  qed
qed

lemma chart_fold_inv:
  assumes "\<forall>q\<in>set data. (\<exists>x\<in>S. department x = fst q) \<and> (\<forall>p\<in>set (snd q). 1 \<le> snd p)"
    and "set logs \<subseteq> S"
  shows "\<forall>q\<in>set (foldl (chart_count f e) data logs).
           (\<exists>x\<in>S. department x = fst q) \<and> (\<forall>p\<in>set (snd q). 1 \<le> snd p)"
  using assms
proof (induction logs arbitrary: data)
  case Nil
  then show ?case by simp
next
  case (Cons l logs)
  from Cons.prems(2) have l: "l \<in> S" and rest: "set logs \<subseteq> S" by auto
  from Cons.IH [OF chart_count_inv [OF Cons.prems(1) l] rest] show ?case by simp
qed

lemma chart_rows_member:
  assumes "(d, p, c) \<in> set (chart_rows departments data)"
  shows "d \<in> set departments \<and> (d, get data d []) \<in> set data \<and> (p, c) \<in> set (get data d [])"
proof -
  from assms have d: "d \<in> set departments" and pc: "(p, c) \<in> set (get data d [])"
    by (auto simp: chart_rows_def)
  from pc get_cases [of data d] have "(d, get data d []) \<in> set data" by auto
  with d pc show ?thesis by simp
qed

text \<open>
  Claim C10.  Every row of the chart data has a count of at least 1 and belongs to a
  unit that some counted record is attributed to.  A unit of the fixed list without any
  record has no row in the chart data, while it keeps its row, with total 0, in the
  matrix of the table.
\<close>

theorem chart_rows_positive:
  assumes "prepare_chart_data logs start_date end_date = Some (rows, f)"
  shows "(\<forall>(d, p, c)\<in>set rows.
            1 \<le> c \<and> d \<in> set get_departments \<and> (\<exists>l\<in>set logs. department l = d))
     \<and> (\<forall>d\<in>set get_departments. (\<forall>l\<in>set logs. department l \<noteq> d) \<longrightarrow>
            (\<forall>p c. (d, p, c) \<notin> set rows)
            \<and> map_of (dept_matrix get_departments logs) d = Some \<lparr>total_cnt = 0, months = []\<rparr>)"
proof -
  from assms obtain n where rows:
    "rows = chart_rows get_departments (foldl (chart_count (freq_of n) end_date) [] logs)"
    by (auto simp: prepare_chart_data_def split: option.splits)
  let ?data = "foldl (chart_count (freq_of n) end_date) [] logs"
  have inv: "\<forall>q\<in>set ?data. (\<exists>x\<in>set logs. department x = fst q) \<and> (\<forall>p\<in>set (snd q). 1 \<le> snd p)"
    by (rule chart_fold_inv) simp_all
  have row: "1 \<le> c \<and> d \<in> set get_departments \<and> (\<exists>l\<in>set logs. department l = d)"
    if "(d, p, c) \<in> set rows" for d p c
  proof -
    from that rows chart_rows_member [of d p c get_departments ?data]
    have m: "d \<in> set get_departments" "(d, get ?data d []) \<in> set ?data"
      "(p, c) \<in> set (get ?data d [])" by auto
    from inv m(2) have "(\<exists>x\<in>set logs. department x = d) \<and> (\<forall>p\<in>set (get ?data d []). 1 \<le> snd p)"
      by force
    with m show ?thesis by force
  qed
  have none: "(\<forall>p c. (d, p, c) \<notin> set rows)
      \<and> map_of (dept_matrix get_departments logs) d = Some \<lparr>total_cnt = 0, months = []\<rparr>"
    if "d \<in> set get_departments" "\<forall>l\<in>set logs. department l \<noteq> d" for d
  proof -
    have "map_of (dept_matrix get_departments logs) d = Some \<lparr>total_cnt = 0, months = []\<rparr>"
      using that
      by (simp add: dept_matrix_def dept_matrix_untouched_from dept_matrix_init_departments
          map_of_const empty_stats_def)
    with row that(2) show ?thesis by blast
  qed
  from row none show ?thesis by blast
qed

lemma example_total_months:
  "total_months \<lparr>year = 2024, month = 1, day = 1\<rparr> \<lparr>year = 2024, month = 1, day = 31\<rparr> = Some 0"
  by (simp add: total_months_def relativedelta_between_def set_months_def add_delta_def
      mk_date_def valid_ymd_def days_in_month_def date_less_def Let_def)

lemma example_chart:
  "prepare_chart_data [example_dlog] \<lparr>year = 2024, month = 1, day = 1\<rparr>
     \<lparr>year = 2024, month = 1, day = 31\<rparr>
   = Some ([(upravlenie 2, ascii ''2024-01'', 1)], Month)"
  by (simp add: prepare_chart_data_def example_total_months freq_of_def chart_rows_def
      chart_count_def chart_period_def format_of_def strftime_def incr_def get_def
      get_departments_def upravlenie_def example_dlog_def example_log_def example_entry_def
      with_department_def with_date_def log.extend_def dlog.fields_def entry.extend_def
      log.fields_def date_of_def py_str_def fmt_02d_def ascii_def)

theorem chart_rows_positive_witness:
  "prepare_chart_data [example_dlog] \<lparr>year = 2024, month = 1, day = 1\<rparr>
     \<lparr>year = 2024, month = 1, day = 31\<rparr>
   = Some ([(upravlenie 2, ascii ''2024-01'', 1)], Month)
   \<and> upravlenie 1 \<in> set get_departments
   \<and> department example_dlog \<noteq> upravlenie 1
   \<and> map_of (dept_matrix get_departments [example_dlog]) (upravlenie 1)
       = Some \<lparr>total_cnt = 0, months = []\<rparr>"
proof -
  have a: "upravlenie 1 \<in> set get_departments" by (simp add: get_departments_def)
  have b: "department example_dlog \<noteq> upravlenie 1"
    by (simp add: example_dlog_def with_department_def log.extend_def dlog.fields_def
        upravlenie_def)
  from chart_rows_positive [OF example_chart] a b example_chart show ?thesis by simp
qed


subsection \<open>Splitting and joining at a single character\<close>

lemma split_from_none: "c \<notin> set s \<Longrightarrow> split_from [c] acc s = [rev acc @ s]"
  by (induction s arbitrary: acc) auto

lemma split_from_first:
  "c \<notin> set t \<Longrightarrow> split_from [c] acc (t @ c # rest) = (rev acc @ t) # split_from [c] [] rest"
  by (induction t arbitrary: acc) auto

lemma split_from_free:
  "c \<notin> set acc \<Longrightarrow> \<forall>t\<in>set (split_from [c] acc s). c \<notin> set t"
proof (induction s arbitrary: acc)
  case Nil
  then show ?case by simp
next
  case (Cons a s)
  show ?case
  proof (cases "a = c")
    case True
    with Cons.prems Cons.IH [of "[]"] show ?thesis by simp
  next
    case False
    with Cons.prems Cons.IH [of "a # acc"] show ?thesis by simp
  qed
qed

lemma split_join:
  "toks \<noteq> [] \<Longrightarrow> \<forall>t\<in>set toks. c \<notin> set t \<Longrightarrow> split [c] (join [c] toks) = toks"
proof (induction toks)
  case Nil
  then show ?case by simp
next
  case (Cons x xs)
  show ?case
  proof (cases xs)
    case Nil
    with Cons.prems show ?thesis by (simp add: split_def split_from_none)
  next
    case (Cons y ys)
    with Cons.prems Cons.IH show ?thesis by (simp add: split_def split_from_first)
  qed
qed

lemma count_free: "c \<notin> set t \<Longrightarrow> count [c] (t @ s) = count [c] s"
  by (induction t) auto

lemma count_join:
  "toks \<noteq> [] \<Longrightarrow> \<forall>t\<in>set toks. c \<notin> set t \<Longrightarrow> count [c] (join [c] toks) = int (length toks) - 1"
proof (induction toks)
  case Nil
  then show ?case by simp
next
  case (Cons x xs)
  show ?case
  proof (cases xs)
    case Nil
    with Cons.prems show ?thesis using count_free [of c x "[]"] by simp
  next
    case (Cons y ys)
    with Cons.prems Cons.IH show ?thesis
      using count_free [of c x "c # join [c] (y # ys)"] by simp
  qed
qed

lemma getitem_last: "xs \<noteq> [] \<Longrightarrow> getitem xs (- 1) = Some (last xs)"
  by (cases xs rule: rev_cases) (auto simp: getitem_def nth_append)

lemma tokens_free:
  "\<forall>t\<in>set (take 4 (filter (isdigit E) (split [46] ip))). 46 \<notin> set t"
proof -
  have "\<forall>t\<in>set (split [46] ip). 46 \<notin> set t"
    unfolding split_def by (rule split_from_free) simp
  then show ?thesis by (auto dest: in_set_takeD)
qed

lemma last_octet_eq:
  "last_octet E ip =
     (let toks = take 4 (filter (isdigit E) (split [46] ip))
      in if length toks = 4 then py_int E (last toks) else Some 0)"
proof -
  let ?toks = "take 4 (filter (isdigit E) (split [46] ip))"
  have len: "length ?toks \<le> 4" by simp
  show ?thesis
  proof (cases "?toks = []")
    case True
    then show ?thesis by (simp add: last_octet_def clean_ip_def)
  next
    case False
    have c: "count [46] (join [46] ?toks) = int (length ?toks) - 1"
      using False tokens_free by (rule count_join)
    have s: "split [46] (join [46] ?toks) = ?toks"
      using False tokens_free by (rule split_join)
    show ?thesis
      using c s False getitem_last [OF False]
      by (auto simp: last_octet_def clean_ip_def Let_def)
  qed
qed

lemma getitem_departments:
  "getitem get_departments (n mod 6) = Some (get_departments ! nat (n mod 6))"
  by (simp add: getitem_def get_departments_def)

lemma try_department_eq:
  "try_department E get_departments ip =
     (let toks = take 4 (filter (isdigit E) (split [46] ip))
      in if length toks = 4
         then (case py_int E (last toks) of
                 None \<Rightarrow> None
               | Some n \<Rightarrow> Some (get_departments ! nat (n mod 6)))
         else Some (get_departments ! 0))"
proof -
  have six: "int (length get_departments) = 6" "get_departments \<noteq> []"
    by (simp_all add: get_departments_def)
  have zero: "getitem get_departments 0 = Some (get_departments ! 0)"
    using getitem_departments [of 0] by simp
  show ?thesis
    using getitem_departments zero
    by (simp add: try_department_def last_octet_eq six Let_def split: option.splits)
qed


subsection \<open>Unit attribution\<close>


lemma assign_length:
  "assign_departments_to_logs E logs departments = Some out \<Longrightarrow> length out = length logs"
  by (induction logs arbitrary: out) (auto split: option.splits)

lemma last_octet_unknown: "last_octet E unknown = Some 0"
proof -
  have "split [46] unknown = [unknown]"
    unfolding split_def by (simp add: split_from_none unknown_def ascii_def)
  then show ?thesis by (simp add: last_octet_eq Let_def)
qed

lemma department_for_eq:
  "department_for E get_departments ip =
     Some (let toks = take 4 (filter (isdigit E) (split [46] ip))
           in if length toks = 4
              then (case py_int E (last toks) of
                      None \<Rightarrow> get_departments ! 0
                    | Some n \<Rightarrow> get_departments ! nat (n mod 6))
              else get_departments ! 0)"
proof -
  have zero: "getitem get_departments 0 = Some (get_departments ! 0)"
    using getitem_departments [of 0] by simp
  show ?thesis
    by (simp add: department_for_def try_department_eq zero Let_def split: option.splits)
qed

text \<open>
  Claim C9 says that attribution never reaches the fallback of its exception handler.
  It does: the superscript two (U+00B2) passes \<open>str.isdigit\<close>, so
  \<open>1.2.3.\<close> followed by it yields four numeric octets, and \<open>int\<close> refuses the
  fourth; the handler then assigns the first unit.
\<close>

theorem fallback_reached:
  "try_department cpython get_departments (ascii ''1.2.3.'' @ [178]) = None
   \<and> department_for cpython get_departments (ascii ''1.2.3.'' @ [178]) = Some (upravlenie 1)"
  by (simp add: department_for_def try_department_def last_octet_def clean_ip_def split_def
      isdigit_def cpython_defs ascii_def getitem_def py_int_def int_space_def int_digit_def
      digits_value_def Let_def get_departments_def)

text \<open>
  Claim C9, amended.  Attribution is total and always assigns a unit of the fixed list,
  for one address and for a whole list of records.  The body of the \<open>try\<close> block
  raises exactly when four numeric octets were collected and \<open>int\<close> refuses the
  fourth; with fewer than four numeric octets it takes the path \<open>last_octet = 0\<close>
  and selects the first unit without an exception, and so does the default address
  \<open>unknown\<close>.
\<close>

theorem attribution_total:
  "(\<exists>d. department_for E get_departments ip = Some d \<and> d \<in> set get_departments)
   \<and> (\<exists>out. assign_departments_to_logs E logs get_departments = Some out
         \<and> length out = length logs)
   \<and> (try_department E get_departments ip = None \<longleftrightarrow>
        length (take 4 (filter (isdigit E) (split [46] ip))) = 4
        \<and> py_int E (last (take 4 (filter (isdigit E) (split [46] ip)))) = None)
   \<and> (length (take 4 (filter (isdigit E) (split [46] ip))) < 4 \<longrightarrow>
        last_octet E ip = Some 0
        \<and> try_department E get_departments ip = Some (get_departments ! 0))
   \<and> last_octet E unknown = Some 0"
proof -
  define toks where "toks = take 4 (filter (isdigit E) (split [46] ip))"
  obtain out where out: "assign_departments_to_logs E logs get_departments = Some out"
    using assign_total [of E logs] by blast
  then have len: "length out = length logs" by (rule assign_length)
  have t: "try_department E get_departments ip =
      (if length toks = 4
       then (case py_int E (last toks) of
               None \<Rightarrow> None
             | Some n \<Rightarrow> Some (get_departments ! nat (n mod 6)))
       else Some (get_departments ! 0))"
    unfolding toks_def by (simp only: try_department_eq Let_def)
  have l: "last_octet E ip = (if length toks = 4 then py_int E (last toks) else Some 0)"
    unfolding toks_def by (simp only: last_octet_eq Let_def)
  have raised: "try_department E get_departments ip = None \<longleftrightarrow>
        length toks = 4 \<and> py_int E (last toks) = None"
    by (simp add: t split: option.splits)
  have short: "length toks < 4 \<longrightarrow> last_octet E ip = Some 0
      \<and> try_department E get_departments ip = Some (get_departments ! 0)"
    by (simp add: t l)
  from out len raised short department_for_total [of E ip] last_octet_unknown [of E]
  show ?thesis unfolding toks_def by blast
qed

theorem attribution_total_witness:
  "length (take 4 (filter (isdigit cpython) (split [46] (ascii ''10.0.7'')))) < 4
   \<and> last_octet cpython (ascii ''10.0.7'') = Some 0
   \<and> try_department cpython get_departments (ascii ''10.0.7'') = Some (upravlenie 1)"
proof -
  have h: "length (take 4 (filter (isdigit cpython) (split [46] (ascii ''10.0.7'')))) < 4"
    by (simp add: split_def ascii_def)
  from attribution_total [of cpython "ascii ''10.0.7''"] h show ?thesis
    by (simp add: get_departments_def)
qed


subsection \<open>The example line\<close>


lemmas rx_defs = rx_seq_def rx_Y_def rx_lit_def rx_m_def rx_alt_def rx_range_def rx_d_def
  rx_group_def rx_plain_def rx_then_def rx_day_def rx_H_def rx_M_def rx_S_def rx_spaces_def
  strptime_rx_def

lemmas int_defs = py_int_def int_space_def int_digit_def digits_value_def Let_def

lemma example_clean:
  "clean_line cpython example_line =
     ascii ''2024-01-15 09:00:00,123 - Client_IP:'' @ [39] @ ascii ''10.0.0.7'' @ [39]
     @ ascii '', '' @ [39] @ key_fullname @ [58, 39] @ ascii ''Ivanov I.I.'' @ [39]"
  by (simp add: clean_line_def example_line_def strip_def cpython_defs ascii_def key_fullname_def)

lemma example_strptime:
  "strptime cpython (ascii ''2024-01-15 09:00:00'')
     = Some \<lparr>year = 2024, month = 1, day = 15, hour = 9, minute = 0, second = 0\<rparr>"
  by (simp add: strptime_def rx_defs cpython_defs ascii_def int_defs mk_datetime_def
      valid_ymd_def days_in_month_def)

lemma example_parse: "parse_log_entry cpython example_line = Some example_entry"
  using example_strptime
  by (simp add: parse_log_entry_def example_clean split1_def split_def ascii_def
      key_fullname_def key_login_def key_org_unit_def build_entry_def get_def unknown_def
      example_entry_def strip_chars_def strip_def cpython_isspace)


lemma example_process: "process_logs cpython [example_line] = [example_log]"
  by (simp add: process_logs_def example_parse example_log_def)

text \<open>
  Claim C5.  The unit of an address: of the dot-separated pieces that are numeric the
  first four are kept; if there are four, the last is converted by \<open>int\<close> and the unit
  at index (value mod 6) of the six fixed units is selected, the first unit if the
  conversion fails; with fewer than four the first unit (index 0 mod 6).  The example
  line of the specification parses to the address 10.0.0.7 and the full name
  Ivanov I.I., and is attributed to the second unit.
\<close>

theorem unit_attribution:
  "department_for E get_departments ip =
     Some (let toks = take 4 (filter (isdigit E) (split [46] ip))
           in if length toks = 4
              then (case py_int E (last toks) of
                      None \<Rightarrow> get_departments ! 0
                    | Some n \<Rightarrow> get_departments ! nat (n mod 6))
              else get_departments ! 0)
   \<and> length get_departments = 6
   \<and> parse_log_entry cpython example_line = Some example_entry
   \<and> client_ip example_entry = ascii ''10.0.0.7''
   \<and> fullname example_entry = ascii ''Ivanov I.I.''
   \<and> process_logs cpython [example_line] = [example_log]
   \<and> assign_departments_to_logs cpython [example_log] get_departments = Some [example_dlog]
   \<and> department example_dlog = get_departments ! 1"
proof -
  have "department example_dlog = get_departments ! 1"
    by (simp add: example_dlog_def with_department_def log.extend_def dlog.fields_def
        get_departments_def)
  moreover have "client_ip example_entry = ascii ''10.0.0.7''"
      "fullname example_entry = ascii ''Ivanov I.I.''"
    by (simp_all add: example_entry_def)
  ultimately show ?thesis
    using department_for_eq [of E ip] departments_length example_parse example_process
      example_assign
    by simp
qed

theorem unit_attribution_witness:
  "department_for cpython get_departments (ascii ''10.0.0.7'') = Some (get_departments ! 1)"
  using unit_attribution [of cpython "ascii ''10.0.0.7''"]
  by (simp add: split_def isdigit_def cpython_defs ascii_def py_int_def int_space_def
      int_digit_def digits_value_def Let_def)

subsection \<open>The parser\<close>

lemma split1_from_none:
  "\<not> sublist sep s \<Longrightarrow> split1_from sep acc s = [rev acc @ s]"
proof (induction s arbitrary: acc)
  case Nil
  then show ?case by simp
next
  case (Cons c cs)
  from Cons.prems have "\<not> prefix sep (c # cs)" "\<not> sublist sep cs"
    by (auto simp: sublist_Cons_right)
  with Cons.IH [of "c # acc"] show ?case by simp
qed

lemma split1_from_char:
  "c \<in> set s \<Longrightarrow> \<exists>k v. split1_from [c] acc s = [k, v]"
  by (induction s arbitrary: acc) auto

lemma parse_items_total: "\<exists>flds'. parse_items E flds items = Some flds'"
proof (induction items arbitrary: flds)
  case Nil
  show ?case by simp
next
  case (Cons item items)
  show ?case
  proof (cases "58 \<in> set item")
    case False
    with Cons.IH show ?thesis by simp
  next
    case True
    then obtain k v where "split1 [58] item = [k, v]"
      using split1_from_char [of 58 item "[]"] by (auto simp: split1_def)
    with True Cons.IH show ?thesis by simp
  qed
qed

lemma split_from_nonempty: "split_from sep acc s \<noteq> []"
  by (induction sep acc s rule: split_from.induct) auto

lemma mk_datetime_valid: "mk_datetime y m d H M S = Some t \<Longrightarrow> valid_datetime t"
  by (auto simp: mk_datetime_def valid_datetime_def split: if_splits)

lemma strptime_valid:
  assumes "strptime E s = Some t"
  shows "valid_datetime t"
proof -
  from assms obtain y m d H M S where "mk_datetime y m d H M S = Some t"
    by (auto simp: strptime_def split: list.splits prod.splits if_splits option.splits)
  then show ?thesis by (rule mk_datetime_valid)
qed

lemma process_logs_from_eq:
  "process_logs_from E parsed raw =
     parsed @ map with_date (List.map_filter (parse_log_entry E) raw)"
  by (induction raw arbitrary: parsed) (auto simp: map_filter_simps split: option.splits)

lemma process_logs_eq:
  "process_logs E raw = map with_date (List.map_filter (parse_log_entry E) raw)"
  by (simp add: process_logs_def process_logs_from_eq)

lemma map_filter_append:
  "List.map_filter f (xs @ ys) = List.map_filter f xs @ List.map_filter f ys"
  by (simp add: List.map_filter_def)

text \<open>
  What \<open>strptime\<close> accepts.  Every match of the regular expression of the format
  splits the text into a year of four decimal digits, a hyphen, a month of one or two
  characters, a hyphen, a day of one or two characters, one or more whitespace characters,
  and an hour, a minute and a second of one or two characters each, separated by colons.
\<close>

lemma rx_range_sound:
  "(a, r) \<in> set (rx_range lo hi s) \<Longrightarrow> s = a @ r \<and> length a = 1"
  by (auto simp: rx_range_def split: list.splits if_splits)

lemma rx_d_sound:
  "(a, r) \<in> set (rx_d E s) \<Longrightarrow> s = a @ r \<and> length a = 1 \<and> (\<forall>c\<in>set a. decimal_cp E c \<noteq> None)"
  by (auto simp: rx_d_def split: list.splits if_splits)

lemma rx_seq_sound:
  "(x, r) \<in> set (rx_seq p q s) \<Longrightarrow>
     \<exists>a b r1. (a, r1) \<in> set (p s) \<and> (b, r) \<in> set (q r1) \<and> x = a @ b"
  by (auto simp: rx_seq_def)

lemma rx_lit_sound: "(a, r) \<in> set (rx_lit c s) \<Longrightarrow> a = [c] \<and> s = c # r"
  by (auto simp: rx_lit_def rx_range_def split: list.splits if_splits)

lemma rx_spaces_sound:
  assumes "(a, r) \<in> set (rx_spaces E s)"
  shows "s = a @ r \<and> a \<noteq> [] \<and> (\<forall>c\<in>set a. isspace_cp E c)"
proof -
  let ?n = "length (takeWhile (isspace_cp E) s)"
  from assms obtain k where k: "1 \<le> k" "k \<le> ?n" "a = take k s" "r = drop k s"
    by (auto simp: rx_spaces_def)
  have "s = takeWhile (isspace_cp E) s @ dropWhile (isspace_cp E) s" by simp
  then have "take k s = take k (takeWhile (isspace_cp E) s)"
    using k(2) by (metis append_Nil2 diff_is_0_eq take_0 take_append)
  then have "set (take k s) \<subseteq> set (takeWhile (isspace_cp E) s)"
    by (metis set_take_subset)
  then have sp: "\<forall>c\<in>set (take k s). isspace_cp E c"
    by (auto dest: set_takeWhileD)
  from k(1,2) have "take k s \<noteq> []" by (cases s) auto
  with sp k show ?thesis by simp
qed

lemma rx_two_digits_sound:
  "(a, r) \<in> set (rx_seq (rx_d E) (rx_d E) s) \<Longrightarrow>
     s = a @ r \<and> length a = 2 \<and> (\<forall>c\<in>set a. decimal_cp E c \<noteq> None)"
  by (fastforce dest!: rx_seq_sound dest: rx_d_sound)

lemma rx_Y_sound:
  assumes "(a, r) \<in> set (rx_Y E s)"
  shows "s = a @ r \<and> length a = 4 \<and> (\<forall>c\<in>set a. decimal_cp E c \<noteq> None)"
proof -
  from assms obtain a1 r1 b1 where 1: "(a1, r1) \<in> set (rx_d E s)"
    "(b1, r) \<in> set (rx_seq (rx_d E) (rx_seq (rx_d E) (rx_d E)) r1)" "a = a1 @ b1"
    unfolding rx_Y_def by (blast dest: rx_seq_sound)
  from 1(2) obtain a2 r2 b2 where 2: "(a2, r2) \<in> set (rx_d E r1)"
    "(b2, r) \<in> set (rx_seq (rx_d E) (rx_d E) r2)" "b1 = a2 @ b2"
    by (blast dest: rx_seq_sound)
  from rx_d_sound [OF 1(1)] rx_d_sound [OF 2(1)] rx_two_digits_sound [OF 2(2)] 1(3) 2(3)
  show ?thesis by auto
qed

lemma rx_pair_sound:
  assumes "(a, r) \<in> set (rx_seq p q s)"
    and "\<And>x y t. (x, y) \<in> set (p t) \<Longrightarrow> t = x @ y \<and> length x = 1"
    and "\<And>x y t. (x, y) \<in> set (q t) \<Longrightarrow> t = x @ y \<and> length x = 1"
  shows "s = a @ r \<and> length a = 2"
proof -
  from assms(1) obtain x b r1 where "(x, r1) \<in> set (p s)" "(b, r) \<in> set (q r1)" "a = x @ b"
    by (blast dest: rx_seq_sound)
  with assms(2) [of x r1 s] assms(3) [of b r r1] show ?thesis by simp
qed

lemma rx_lit_one: "(x, y) \<in> set (rx_lit c t) \<Longrightarrow> t = x @ y \<and> length x = 1"
  by (auto dest: rx_lit_sound)

lemma rx_d_one: "(x, y) \<in> set (rx_d E t) \<Longrightarrow> t = x @ y \<and> length x = 1"
  by (auto dest: rx_d_sound)

lemma rx_m_sound:
  "(a, r) \<in> set (rx_m s) \<Longrightarrow> s = a @ r \<and> (length a = 1 \<or> length a = 2)"
  unfolding rx_m_def rx_alt_def
  by (auto dest: rx_range_sound rx_pair_sound [OF _ rx_lit_one rx_range_sound])

lemma rx_day_sound:
  "(a, r) \<in> set (rx_day E s) \<Longrightarrow> s = a @ r \<and> (length a = 1 \<or> length a = 2)"
  unfolding rx_day_def rx_alt_def
  by (auto dest: rx_range_sound rx_pair_sound [OF _ rx_lit_one rx_range_sound]
      rx_pair_sound [OF _ rx_range_sound rx_d_one])

lemma rx_H_sound:
  "(a, r) \<in> set (rx_H E s) \<Longrightarrow> s = a @ r \<and> (length a = 1 \<or> length a = 2)"
  unfolding rx_H_def rx_alt_def
  by (auto dest: rx_d_one rx_pair_sound [OF _ rx_lit_one rx_range_sound]
      rx_pair_sound [OF _ rx_range_sound rx_d_one])

lemma rx_M_sound:
  "(a, r) \<in> set (rx_M E s) \<Longrightarrow> s = a @ r \<and> (length a = 1 \<or> length a = 2)"
  unfolding rx_M_def rx_alt_def
  by (auto dest: rx_d_one rx_pair_sound [OF _ rx_range_sound rx_d_one])

lemma rx_S_sound:
  "(a, r) \<in> set (rx_S E s) \<Longrightarrow> s = a @ r \<and> (length a = 1 \<or> length a = 2)"
  unfolding rx_S_def rx_alt_def
  by (auto dest: rx_d_one rx_pair_sound [OF _ rx_lit_one rx_range_sound]
      rx_pair_sound [OF _ rx_range_sound rx_d_one])

lemma rx_then_sound:
  "(g, r) \<in> set (rx_then p q s) \<Longrightarrow>
     \<exists>g1 g2 r1. (g1, r1) \<in> set (p s) \<and> (g2, r) \<in> set (q r1) \<and> g = g1 @ g2"
  by (auto simp: rx_then_def)

lemma rx_group_sound: "(g, r) \<in> set (rx_group p s) \<Longrightarrow> \<exists>a. g = [a] \<and> (a, r) \<in> set (p s)"
  by (auto simp: rx_group_def)

lemma rx_plain_sound: "(g, r) \<in> set (rx_plain p s) \<Longrightarrow> g = [] \<and> (\<exists>a. (a, r) \<in> set (p s))"
  by (auto simp: rx_plain_def)

lemma rx_group_then:
  assumes "(g, r) \<in> set (rx_then (rx_group p) q s)"
  obtains a r1 g2 where "(a, r1) \<in> set (p s)" "(g2, r) \<in> set (q r1)" "g = a # g2"
  using assms by (fastforce dest!: rx_then_sound dest: rx_group_sound)

lemma rx_plain_then:
  assumes "(g, r) \<in> set (rx_then (rx_plain p) q s)"
  obtains a r1 where "(a, r1) \<in> set (p s)" "(g, r) \<in> set (q r1)"
  using assms by (fastforce dest!: rx_then_sound dest: rx_plain_sound)

lemma strptime_rx_sound:
  assumes "(g, r) \<in> set (strptime_rx E s)"
  shows "\<exists>Y m d w H M S. g = [Y, m, d, H, M, S]
     \<and> s = Y @ [45] @ m @ [45] @ d @ w @ H @ [58] @ M @ [58] @ S @ r
     \<and> length Y = 4 \<and> (\<forall>c\<in>set Y. decimal_cp E c \<noteq> None)
     \<and> (length m = 1 \<or> length m = 2) \<and> (length d = 1 \<or> length d = 2)
     \<and> w \<noteq> [] \<and> (\<forall>c\<in>set w. isspace_cp E c)
     \<and> (length H = 1 \<or> length H = 2) \<and> (length M = 1 \<or> length M = 2)
     \<and> (length S = 1 \<or> length S = 2)"
proof -
  from assms obtain Y r1 g1 where Y: "(Y, r1) \<in> set (rx_Y E s)" and g: "g = Y # g1"
    and 1: "(g1, r) \<in> set ((rx_then (rx_plain (rx_lit 45))
    (rx_then (rx_group rx_m) (rx_then (rx_plain (rx_lit 45))
    (rx_then (rx_group (rx_day E)) (rx_then (rx_plain (rx_spaces E))
    (rx_then (rx_group (rx_H E)) (rx_then (rx_plain (rx_lit 58))
    (rx_then (rx_group (rx_M E)) (rx_then (rx_plain (rx_lit 58))
    (rx_group (rx_S E))))))))))) r1)"
    unfolding strptime_rx_def by (rule rx_group_then) blast
  from 1 obtain x2 r2 where l2: "(x2, r2) \<in> set (rx_lit 45 r1)"
    and 2: "(g1, r) \<in> set ((rx_then (rx_group rx_m) (rx_then (rx_plain (rx_lit 45))
    (rx_then (rx_group (rx_day E)) (rx_then (rx_plain (rx_spaces E))
    (rx_then (rx_group (rx_H E)) (rx_then (rx_plain (rx_lit 58))
    (rx_then (rx_group (rx_M E)) (rx_then (rx_plain (rx_lit 58))
    (rx_group (rx_S E)))))))))) r2)"
    by (rule rx_plain_then) blast
  from 2 obtain m r3 g3 where m: "(m, r3) \<in> set (rx_m r2)" and g1: "g1 = m # g3"
    and 3: "(g3, r) \<in> set ((rx_then (rx_plain (rx_lit 45))
    (rx_then (rx_group (rx_day E)) (rx_then (rx_plain (rx_spaces E))
    (rx_then (rx_group (rx_H E)) (rx_then (rx_plain (rx_lit 58))
    (rx_then (rx_group (rx_M E)) (rx_then (rx_plain (rx_lit 58))
    (rx_group (rx_S E))))))))) r3)"
    by (rule rx_group_then) blast
  from 3 obtain x4 r4 where l4: "(x4, r4) \<in> set (rx_lit 45 r3)"
    and 4: "(g3, r) \<in> set ((rx_then (rx_group (rx_day E)) (rx_then (rx_plain (rx_spaces E))
    (rx_then (rx_group (rx_H E)) (rx_then (rx_plain (rx_lit 58))
    (rx_then (rx_group (rx_M E)) (rx_then (rx_plain (rx_lit 58))
    (rx_group (rx_S E)))))))) r4)"
    by (rule rx_plain_then) blast
  from 4 obtain d r5 g5 where d: "(d, r5) \<in> set (rx_day E r4)" and g3: "g3 = d # g5"
    and 5: "(g5, r) \<in> set ((rx_then (rx_plain (rx_spaces E))
    (rx_then (rx_group (rx_H E)) (rx_then (rx_plain (rx_lit 58))
    (rx_then (rx_group (rx_M E)) (rx_then (rx_plain (rx_lit 58))
    (rx_group (rx_S E))))))) r5)"
    by (rule rx_group_then) blast
  from 5 obtain w r6 where w: "(w, r6) \<in> set (rx_spaces E r5)"
    and 6: "(g5, r) \<in> set ((rx_then (rx_group (rx_H E)) (rx_then (rx_plain (rx_lit 58))
    (rx_then (rx_group (rx_M E)) (rx_then (rx_plain (rx_lit 58))
    (rx_group (rx_S E)))))) r6)"
    by (rule rx_plain_then) blast
  from 6 obtain H r7 g7 where H: "(H, r7) \<in> set (rx_H E r6)" and g5: "g5 = H # g7"
    and 7: "(g7, r) \<in> set ((rx_then (rx_plain (rx_lit 58))
    (rx_then (rx_group (rx_M E)) (rx_then (rx_plain (rx_lit 58))
    (rx_group (rx_S E))))) r7)"
    by (rule rx_group_then) blast
  from 7 obtain x8 r8 where l8: "(x8, r8) \<in> set (rx_lit 58 r7)"
    and 8: "(g7, r) \<in> set ((rx_then (rx_group (rx_M E)) (rx_then (rx_plain (rx_lit 58))
    (rx_group (rx_S E)))) r8)"
    by (rule rx_plain_then) blast
  from 8 obtain M r9 g9 where M: "(M, r9) \<in> set (rx_M E r8)" and g7: "g7 = M # g9"
    and 9: "(g9, r) \<in> set ((rx_then (rx_plain (rx_lit 58)) (rx_group (rx_S E))) r9)"
    by (rule rx_group_then) blast
  from 9 obtain x10 r10 where l10: "(x10, r10) \<in> set (rx_lit 58 r9)"
    and 10: "(g9, r) \<in> set (rx_group (rx_S E) r10)"
    by (rule rx_plain_then) blast
  from 10 obtain S where S: "(S, r) \<in> set (rx_S E r10)" and g9: "g9 = [S]"
    by (blast dest: rx_group_sound)
  have groups: "g = [Y, m, d, H, M, S]" by (simp add: g g1 g3 g5 g7 g9)
  have whole: "s = Y @ [45] @ m @ [45] @ d @ w @ H @ [58] @ M @ [58] @ S @ r"
    using rx_Y_sound [OF Y] rx_lit_sound [OF l2] rx_m_sound [OF m] rx_lit_sound [OF l4]
      rx_day_sound [OF d] rx_spaces_sound [OF w] rx_H_sound [OF H] rx_lit_sound [OF l8]
      rx_M_sound [OF M] rx_lit_sound [OF l10] rx_S_sound [OF S]
    by simp
  from groups whole rx_Y_sound [OF Y] rx_m_sound [OF m] rx_day_sound [OF d]
    rx_spaces_sound [OF w] rx_H_sound [OF H] rx_M_sound [OF M] rx_S_sound [OF S]
  show ?thesis by blast
qed

lemma mk_datetime_fields:
  "mk_datetime y m d H M S = Some x \<Longrightarrow>
     year x = y \<and> month x = m \<and> day x = d \<and> hour x = H \<and> minute x = M \<and> second x = S"
  by (auto simp: mk_datetime_def split: if_splits)

lemma strptime_accepts:
  assumes "strptime E t = Some x"
  shows "valid_datetime x
     \<and> (\<exists>Y m d w H M S. t = Y @ [45] @ m @ [45] @ d @ w @ H @ [58] @ M @ [58] @ S
          \<and> length Y = 4 \<and> (\<forall>c\<in>set Y. decimal_cp E c \<noteq> None)
          \<and> (length m = 1 \<or> length m = 2) \<and> (length d = 1 \<or> length d = 2)
          \<and> w \<noteq> [] \<and> (\<forall>c\<in>set w. isspace_cp E c)
          \<and> (length H = 1 \<or> length H = 2) \<and> (length M = 1 \<or> length M = 2)
          \<and> (length S = 1 \<or> length S = 2)
          \<and> py_int E Y = Some (year x) \<and> py_int E m = Some (month x)
          \<and> py_int E d = Some (day x) \<and> py_int E H = Some (hour x)
          \<and> py_int E M = Some (minute x) \<and> py_int E S = Some (second x))"
proof -
  from assms obtain g rest tl where first: "strptime_rx E t = (g, rest) # tl"
    by (auto simp: strptime_def split: list.splits)
  with assms have rest: "rest = []"
    by (auto simp: strptime_def split: if_splits)
  from first have "(g, rest) \<in> set (strptime_rx E t)" by simp
  from strptime_rx_sound [OF this] rest obtain Y m d w H M S where
    g: "g = [Y, m, d, H, M, S]"
    and shape: "t = Y @ [45] @ m @ [45] @ d @ w @ H @ [58] @ M @ [58] @ S"
      "length Y = 4" "\<forall>c\<in>set Y. decimal_cp E c \<noteq> None"
      "length m = 1 \<or> length m = 2" "length d = 1 \<or> length d = 2"
      "w \<noteq> []" "\<forall>c\<in>set w. isspace_cp E c"
      "length H = 1 \<or> length H = 2" "length M = 1 \<or> length M = 2"
      "length S = 1 \<or> length S = 2"
    by auto
  from assms first rest g obtain y mo dd h mi sec where
    ints: "py_int E Y = Some y" "py_int E m = Some mo" "py_int E d = Some dd"
      "py_int E H = Some h" "py_int E M = Some mi" "py_int E S = Some sec"
    and mk: "mk_datetime y mo dd h mi sec = Some x"
    by (auto simp: strptime_def split: option.splits)
  from mk_datetime_fields [OF mk] ints
  have vals: "py_int E Y = Some (year x)" "py_int E m = Some (month x)"
      "py_int E d = Some (day x)" "py_int E H = Some (hour x)"
      "py_int E M = Some (minute x)" "py_int E S = Some (second x)"
    by simp_all
  from strptime_valid [OF assms] shape vals show ?thesis by blast
qed

lemma unpadded_strptime:
  "strptime cpython (ascii ''2024-1-5 9:0:0'')
     = Some \<lparr>year = 2024, month = 1, day = 5, hour = 9, minute = 0, second = 0\<rparr>"
  by (simp add: strptime_def rx_defs cpython_defs ascii_def int_defs mk_datetime_def
      valid_ymd_def days_in_month_def)

lemma unpadded_parse: "parse_log_entry cpython unpadded_line = Some unpadded_entry"
  using unpadded_strptime
  by (simp add: parse_log_entry_def clean_line_def unpadded_line_def split1_def split_def
      ascii_def key_fullname_def key_login_def key_org_unit_def build_entry_def get_def
      unknown_def unpadded_entry_def strip_chars_def strip_def cpython_isspace)

lemma unpadded_not_iso: "\<not> iso_pattern (ascii ''2024-1-5 9:0:0'')"
  by (simp add: iso_pattern_def ascii_def)

lemma marker_line_clean:
  "clean_line cpython marker_line = ascii ''2024-01-15 09:00:00 - a:b''"
  by (simp add: clean_line_def marker_line_def strip_def cpython_isspace ascii_def)

lemma marker_line_parse: "parse_log_entry cpython marker_line = Some marker_entry"
  using example_strptime
  by (simp add: parse_log_entry_def marker_line_clean split1_def split_def ascii_def
      key_fullname_def key_login_def key_org_unit_def build_entry_def get_def unknown_def
      marker_entry_def strip_chars_def strip_def cpython_isspace)

text \<open>
  Claim C4 says that a raw line lacking the separator \<open>" - "\<close> fails to parse, and
  that a line whose time part is not in the pattern YYYY-MM-DD HH:MM:SS fails to parse.
  The markers are removed before the line is split, and the removal can produce the
  separator: the first line below has none, and parses.  The time part is read by
  \<open>strptime\<close>, which does not ask for padded fields: the time part of the second
  line is not in the pattern, and the line parses.
\<close>

theorem separator_from_marker:
  "\<not> contains (ascii '' - '') marker_line
   \<and> parse_log_entry cpython marker_line = Some marker_entry
   \<and> split [44] (ascii ''2024-1-5 9:0:0'') = [ascii ''2024-1-5 9:0:0'']
   \<and> \<not> iso_pattern (ascii ''2024-1-5 9:0:0'')
   \<and> unpadded_line = ascii ''2024-1-5 9:0:0'' @ ascii '' - '' @ ascii ''Event:x''
   \<and> parse_log_entry cpython unpadded_line = Some unpadded_entry"
proof -
  have "\<not> contains (ascii '' - '') marker_line"
    by (simp add: contains_def marker_line_def ascii_def sublist_Cons_right)
  moreover have "split [44] (ascii ''2024-1-5 9:0:0'') = [ascii ''2024-1-5 9:0:0'']"
    by (simp add: split_def ascii_def)
  moreover have "unpadded_line = ascii ''2024-1-5 9:0:0'' @ ascii '' - '' @ ascii ''Event:x''"
    by (simp add: unpadded_line_def ascii_def)
  ultimately show ?thesis
    using marker_line_parse unpadded_not_iso unpadded_parse by simp
qed

lemma parse_success_iff:
  "parse_log_entry E line \<noteq> None \<longleftrightarrow>
     (\<exists>tp dp t ts x. split1 (ascii '' - '') (clean_line E line) = [tp, dp]
        \<and> split [44] tp = t # ts \<and> strptime E t = Some x)"
proof -
  have items: "parse_items E [] xs = None \<longleftrightarrow> False" for xs
    using parse_items_total [of E "[]" xs] by auto
  show ?thesis
    by (auto simp: parse_log_entry_def items split: list.splits option.splits)
qed

text \<open>
  Claim C4, amended.  A line that, after trimming and the removal of the markers, lacks
  the separator \<open>" - "\<close>, or whose time part before the first comma \<open>strptime\<close>
  refuses, fails to parse, and nothing else makes a line fail.  \<open>strptime\<close> accepts a
  text only if it splits into a year of four decimal digits, a hyphen, a month of one or
  two characters, a hyphen, a day of one or two characters, one or more whitespace
  characters, and an hour, a minute and a second of one or two characters each, separated
  by colons, such that the numbers \<open>int\<close> reads from the six fields are a valid date
  and time of day; every other text it refuses.  It does not ask for fields padded to two
  digits.  The batch function never aborts: it returns the records of exactly the lines
  that parse, in the order of the lines; a failing line contributes nothing and leaves
  the records of the lines before and after it as they are.
\<close>

theorem malformed_line_skipped:
  "(\<not> contains (ascii '' - '') (clean_line E line) \<longrightarrow> parse_log_entry E line = None)
   \<and> (\<forall>tp dp t ts. split1 (ascii '' - '') (clean_line E line) = [tp, dp]
         \<longrightarrow> split [44] tp = t # ts \<longrightarrow> strptime E t = None
         \<longrightarrow> parse_log_entry E line = None)
   \<and> (\<forall>t x. strptime E t = Some x \<longrightarrow>
        valid_datetime x
        \<and> (\<exists>Y m d w H M S. t = Y @ [45] @ m @ [45] @ d @ w @ H @ [58] @ M @ [58] @ S
             \<and> length Y = 4 \<and> (\<forall>c\<in>set Y. decimal_cp E c \<noteq> None)
             \<and> (length m = 1 \<or> length m = 2) \<and> (length d = 1 \<or> length d = 2)
             \<and> w \<noteq> [] \<and> (\<forall>c\<in>set w. isspace_cp E c)
             \<and> (length H = 1 \<or> length H = 2) \<and> (length M = 1 \<or> length M = 2)
             \<and> (length S = 1 \<or> length S = 2)
             \<and> py_int E Y = Some (year x) \<and> py_int E m = Some (month x)
             \<and> py_int E d = Some (day x) \<and> py_int E H = Some (hour x)
             \<and> py_int E M = Some (minute x) \<and> py_int E S = Some (second x)))
   \<and> (parse_log_entry E line \<noteq> None \<longleftrightarrow>
        (\<exists>tp dp t ts x. split1 (ascii '' - '') (clean_line E line) = [tp, dp]
           \<and> split [44] tp = t # ts \<and> strptime E t = Some x))
   \<and> process_logs E raw = map with_date (List.map_filter (parse_log_entry E) raw)
   \<and> (parse_log_entry E line = None \<longrightarrow>
        process_logs E (before @ line # after) = process_logs E before @ process_logs E after)
   \<and> (\<forall>e. parse_log_entry E line = Some e \<longrightarrow>
        process_logs E (before @ line # after)
          = process_logs E before @ with_date e # process_logs E after)"
proof -
  have nosep: "\<not> contains (ascii '' - '') (clean_line E line) \<longrightarrow> parse_log_entry E line = None"
    using split1_from_none [of "ascii '' - ''" "clean_line E line" "[]"]
    by (simp add: parse_log_entry_def contains_def split1_def)
  have badtime: "\<forall>tp dp t ts. split1 (ascii '' - '') (clean_line E line) = [tp, dp]
         \<longrightarrow> split [44] tp = t # ts \<longrightarrow> strptime E t = None
         \<longrightarrow> parse_log_entry E line = None"
    by (simp add: parse_log_entry_def)
  have accepted: "\<forall>t x. strptime E t = Some x \<longrightarrow>
        valid_datetime x
        \<and> (\<exists>Y m d w H M S. t = Y @ [45] @ m @ [45] @ d @ w @ H @ [58] @ M @ [58] @ S
             \<and> length Y = 4 \<and> (\<forall>c\<in>set Y. decimal_cp E c \<noteq> None)
             \<and> (length m = 1 \<or> length m = 2) \<and> (length d = 1 \<or> length d = 2)
             \<and> w \<noteq> [] \<and> (\<forall>c\<in>set w. isspace_cp E c)
             \<and> (length H = 1 \<or> length H = 2) \<and> (length M = 1 \<or> length M = 2)
             \<and> (length S = 1 \<or> length S = 2)
             \<and> py_int E Y = Some (year x) \<and> py_int E m = Some (month x)
             \<and> py_int E d = Some (day x) \<and> py_int E H = Some (hour x)
             \<and> py_int E M = Some (minute x) \<and> py_int E S = Some (second x))"
    by (intro allI impI) (rule strptime_accepts)
  have skip: "parse_log_entry E line = None \<longrightarrow>
        process_logs E (before @ line # after) = process_logs E before @ process_logs E after"
    by (simp add: process_logs_eq map_filter_append)
  have keep: "\<forall>e. parse_log_entry E line = Some e \<longrightarrow>
        process_logs E (before @ line # after)
          = process_logs E before @ with_date e # process_logs E after"
    by (simp add: process_logs_eq map_filter_append)
  show ?thesis
    by (intro conjI; fact nosep badtime accepted skip keep parse_success_iff process_logs_eq)
qed

lemma no_separator_clean:
  "\<not> contains (ascii '' - '') (clean_line cpython no_separator_line)"
  by (simp add: clean_line_def no_separator_line_def strip_def cpython_isspace ascii_def
      contains_def sublist_Cons_right)

lemma bad_time_parts:
  "split1 (ascii '' - '') (clean_line cpython bad_time_line)
     = [ascii ''yesterday'', ascii ''Event:login'']
   \<and> split [44] (ascii ''yesterday'') = [ascii ''yesterday'']
   \<and> strptime cpython (ascii ''yesterday'') = None"
  by (simp add: clean_line_def bad_time_line_def strip_def cpython_isspace ascii_def
      split1_def split_def strptime_def rx_defs)

theorem malformed_line_skipped_witness:
  "\<not> contains (ascii '' - '') (clean_line cpython no_separator_line)
   \<and> parse_log_entry cpython no_separator_line = None
   \<and> strptime cpython (ascii ''yesterday'') = None
   \<and> parse_log_entry cpython bad_time_line = None
   \<and> strptime cpython (ascii ''2024-1-5 9:0:0'')
       = Some \<lparr>year = 2024, month = 1, day = 5, hour = 9, minute = 0, second = 0\<rparr>
   \<and> valid_datetime \<lparr>year = 2024, month = 1, day = 5, hour = 9, minute = 0, second = 0\<rparr>
   \<and> process_logs cpython ([example_line] @ no_separator_line # [example_line])
       = [example_log, example_log]"
  using malformed_line_skipped [of cpython no_separator_line "[]" "[example_line]" "[example_line]"]
    malformed_line_skipped [of cpython bad_time_line]
    no_separator_clean bad_time_parts example_process unpadded_strptime
  by simp

text \<open>
  Claim C6.  A record that \<open>parse_log_entry\<close> returns has its nine entries: a
  timestamp that is a valid date and time of day, and the eight text fields, each the
  value that the line's field mapping holds under the field's key or, if the mapping has
  no such key, the default \<open>unknown\<close>.
\<close>

theorem parse_populates:
  assumes "parse_log_entry E line = Some e"
  shows "valid_datetime (timestamp e)
     \<and> (\<exists>tp dp flds. split1 (ascii '' - '') (clean_line E line) = [tp, dp]
          \<and> parse_items E [] (split (ascii '', '' @ [39]) dp) = Some flds
          \<and> client_ip e = (case map_of flds (ascii ''Client_IP'') of None \<Rightarrow> unknown | Some v \<Rightarrow> v)
          \<and> client_hostname e =
              (case map_of flds (ascii ''Client_Hostname'') of None \<Rightarrow> unknown | Some v \<Rightarrow> v)
          \<and> server e = (case map_of flds (ascii ''Server'') of None \<Rightarrow> unknown | Some v \<Rightarrow> v)
          \<and> event e = (case map_of flds (ascii ''Event'') of None \<Rightarrow> unknown | Some v \<Rightarrow> v)
          \<and> project e = (case map_of flds (ascii ''Project'') of None \<Rightarrow> unknown | Some v \<Rightarrow> v)
          \<and> login e = (case map_of flds key_login of None \<Rightarrow> unknown | Some v \<Rightarrow> v)
          \<and> org_unit e = (case map_of flds key_org_unit of None \<Rightarrow> unknown | Some v \<Rightarrow> v)
          \<and> fullname e = (case map_of flds key_fullname of None \<Rightarrow> unknown | Some v \<Rightarrow> v))"
proof -
  from assms obtain tp dp t ts x flds where
    parts: "split1 (ascii '' - '') (clean_line E line) = [tp, dp]" "split [44] tp = t # ts"
      "strptime E t = Some x" "parse_items E [] (split (ascii '', '' @ [39]) dp) = Some flds"
      "e = build_entry x flds"
    by (auto simp: parse_log_entry_def split: list.splits option.splits)
  from parts(3) have "valid_datetime x" by (rule strptime_valid)
  with parts show ?thesis
    by (auto simp: build_entry_def get_def)
qed

theorem parse_populates_witness:
  "parse_log_entry cpython example_line = Some example_entry
   \<and> valid_datetime (timestamp example_entry)
   \<and> client_ip example_entry = ascii ''10.0.0.7''
   \<and> server example_entry = unknown"
  using parse_populates [OF example_parse] example_parse
  by (simp add: example_entry_def)


subsection \<open>The span in whole months\<close>

lemma set_months_total: "12 * rd_years (set_months n) + rd_months (set_months n) = n"
  by (simp add: set_months_def Let_def) presburger

lemma set_months_bound: "\<bar>rd_months (set_months n)\<bar> \<le> 11"
  by (simp add: set_months_def Let_def) presburger

lemma idx_unique:
  "12 * a + p = 12 * y + m \<Longrightarrow> 1 \<le> p \<Longrightarrow> p \<le> 12 \<Longrightarrow> 1 \<le> m \<Longrightarrow> m \<le> 12
     \<Longrightarrow> a = y \<and> p = (m::int)"
  by presburger

lemma add_delta_reach:
  assumes "valid_date d" "1 \<le> y" "y \<le> 9999" "1 \<le> m" "m \<le> 12"
    and "12 * year d + month d + n = 12 * y + m"
  shows "add_delta d (set_months n)
     = Some \<lparr>year = y, month = m, day = min (days_in_month y m) (day d)\<rparr>"
proof -
  define r where "r = set_months n"
  have t: "12 * rd_years r + rd_months r = n" and b: "\<bar>rd_months r\<bar> \<le> 11"
    unfolding r_def by (rule set_months_total, rule set_months_bound)
  from assms(1) have v: "1 \<le> month d" "month d \<le> 12" "1 \<le> day d"
    by (auto simp: valid_date_def valid_ymd_def)
  have dim: "28 \<le> days_in_month y m" by (simp add: days_in_month_def)
  let ?m0 = "month d + rd_months r"
  let ?y0 = "year d + rd_years r"
  have eq: "12 * ?y0 + ?m0 = 12 * y + m" using t assms(6) by simp
  define carry where "carry = (if rd_months r = 0 then 0 else if 12 < ?m0 then 1
      else if ?m0 < 1 then - 1 else (0::int))"
  have range: "1 \<le> ?m0 - 12 * carry \<and> ?m0 - 12 * carry \<le> 12"
    using b v unfolding carry_def by (cases "rd_months r = 0") auto
  have "12 * (?y0 + carry) + (?m0 - 12 * carry) = 12 * y + m"
    using eq by (simp add: algebra_simps)
  with range assms(4,5) have ym: "?y0 + carry = y \<and> ?m0 - 12 * carry = m"
    by (intro idx_unique) auto
  have "add_delta d r = mk_date y m (min (days_in_month y m) (day d))"
  proof (cases "rd_months r = 0")
    case True
    with ym assms(4,5) show ?thesis
      unfolding carry_def by (simp add: add_delta_def Let_def)
  next
    case False
    with b have "1 \<le> \<bar>rd_months r\<bar>" "\<bar>rd_months r\<bar> \<le> 12" by linarith+
    with ym assms(4,5) show ?thesis
      unfolding carry_def by (auto simp: add_delta_def Let_def split: if_splits)
  qed
  also have "\<dots> = Some \<lparr>year = y, month = m, day = min (days_in_month y m) (day d)\<rparr>"
    using assms(2-5) v dim by (simp add: mk_date_def valid_ymd_def)
  finally show ?thesis by (simp add: r_def)
qed


declare settle.simps [simp del]

lemma settle_stop:
  assumes "add_delta dt2 (set_months n) = Some dtm"
    and "\<not> (if date_less dt1 dt2 then date_less dtm dt1 else date_less dt1 dtm)"
  shows "settle dt1 dt2 n = Some (set_months n)"
  using assms by (subst settle.simps) simp

lemma settle_step:
  assumes "add_delta dt2 (set_months n) = Some dtm"
    and "if date_less dt1 dt2 then date_less dtm dt1 else date_less dt1 dtm"
  shows "settle dt1 dt2 n = settle dt1 dt2 (n + (if date_less dt1 dt2 then 1 else - 1))"
  using assms by (subst settle.simps) simp

lemma valid_dateD:
  "valid_date d \<Longrightarrow> 1 \<le> year d \<and> year d \<le> 9999 \<and> 1 \<le> month d \<and> month d \<le> 12
     \<and> 1 \<le> day d \<and> day d \<le> days_in_month (year d) (month d)"
  by (simp add: valid_date_def valid_ymd_def)

lemma total_months_forward:
  assumes s: "valid_date s" and e: "valid_date e" and le: "\<not> date_less e s"
  shows "total_months s e =
     Some ((year e - year s) * 12 + (month e - month s) - (if day e < min (days_in_month (year e) (month e)) (day s) then 1 else 0))"
proof -
  define n0 where "n0 = (year e - year s) * 12 + (month e - month s)"
  note vs = valid_dateD [OF s] and ve = valid_dateD [OF e]
  let ?dtm = "\<lparr>year = year e, month = month e,
      day = min (days_in_month (year e) (month e)) (day s)\<rparr>"
  have reach0: "add_delta s (set_months n0) = Some ?dtm"
    using add_delta_reach [OF s, of "year e" "month e" n0] ve by (simp add: n0_def)
  have tot: "rd_years (set_months k) * 12 + rd_months (set_months k) = k" for k
    using set_months_total [of k] by simp
  have tm: "total_months s e =
      (case settle e s n0 of None \<Rightarrow> None
       | Some delta \<Rightarrow> Some (rd_years delta * 12 + rd_months delta))"
    by (simp only: total_months_def relativedelta_between_def n0_def)
  have "total_months s e = Some (n0 - (if day e < min (days_in_month (year e) (month e)) (day s) then 1 else 0))"
  proof (cases "day e < min (days_in_month (year e) (month e)) (day s)")
    case False
    then have "\<not> date_less e ?dtm" by (simp add: date_less_def)
    with le settle_stop [OF reach0, of e] have "settle e s n0 = Some (set_months n0)" by simp
    with False show ?thesis by (simp add: tm tot)
  next
    case True
    then have over: "date_less e ?dtm" by (simp add: date_less_def)
    from le True vs ve have pos: "1 \<le> n0"
      unfolding n0_def date_less_def by auto
    define y' where "y' = (if month e = 1 then year e - 1 else year e)"
    define m' where "m' = (if month e = 1 then 12 else month e - 1)"
    let ?dtm' = "\<lparr>year = y', month = m', day = min (days_in_month y' m') (day s)\<rparr>"
    have b: "1 \<le> y'" "y' \<le> 9999" "1 \<le> m'" "m' \<le> 12"
        "12 * year s + month s + (n0 - 1) = 12 * y' + m'"
      using pos vs ve unfolding y'_def m'_def n0_def by auto
    have reach1: "add_delta s (set_months (n0 - 1)) = Some ?dtm'"
      using add_delta_reach [OF s b] .
    have stop: "\<not> date_less e ?dtm'"
      using ve unfolding y'_def m'_def date_less_def by auto
    from le over settle_step [OF reach0, of e]
    have "settle e s n0 = settle e s (n0 - 1)" by simp
    also from le stop settle_stop [OF reach1, of e]
    have "\<dots> = Some (set_months (n0 - 1))" by simp
    finally show ?thesis using True by (simp add: tm tot)
  qed
  then show ?thesis by (simp only: n0_def)
qed

lemma total_months_backward:
  assumes s: "valid_date s" and e: "valid_date e" and less: "date_less e s"
  shows "total_months s e =
     Some ((year e - year s) * 12 + (month e - month s)
           + (if min (days_in_month (year e) (month e)) (day s) < day e then 1 else 0))"
proof -
  define n0 where "n0 = (year e - year s) * 12 + (month e - month s)"
  note vs = valid_dateD [OF s] and ve = valid_dateD [OF e]
  let ?dtm = "\<lparr>year = year e, month = month e,
      day = min (days_in_month (year e) (month e)) (day s)\<rparr>"
  have reach0: "add_delta s (set_months n0) = Some ?dtm"
    using add_delta_reach [OF s, of "year e" "month e" n0] ve by (simp add: n0_def)
  have tot: "rd_years (set_months k) * 12 + rd_months (set_months k) = k" for k
    using set_months_total [of k] by simp
  have tm: "total_months s e =
      (case settle e s n0 of None \<Rightarrow> None
       | Some delta \<Rightarrow> Some (rd_years delta * 12 + rd_months delta))"
    by (simp only: total_months_def relativedelta_between_def n0_def)
  have "total_months s e = Some (n0
      + (if min (days_in_month (year e) (month e)) (day s) < day e then 1 else 0))"
  proof (cases "min (days_in_month (year e) (month e)) (day s) < day e")
    case False
    then have "\<not> date_less ?dtm e" by (simp add: date_less_def)
    with less settle_stop [OF reach0, of e] have "settle e s n0 = Some (set_months n0)" by simp
    with False show ?thesis by (simp add: tm tot)
  next
    case True
    then have over: "date_less ?dtm e" by (simp add: date_less_def)
    from less True vs ve have neg: "n0 \<le> - 1"
      unfolding n0_def date_less_def by auto
    define y' where "y' = (if month e = 12 then year e + 1 else year e)"
    define m' where "m' = (if month e = 12 then 1 else month e + 1)"
    let ?dtm' = "\<lparr>year = y', month = m', day = min (days_in_month y' m') (day s)\<rparr>"
    have b: "1 \<le> y'" "y' \<le> 9999" "1 \<le> m'" "m' \<le> 12"
        "12 * year s + month s + (n0 + 1) = 12 * y' + m'"
      using neg vs ve unfolding y'_def m'_def n0_def by auto
    have reach1: "add_delta s (set_months (n0 + 1)) = Some ?dtm'"
      using add_delta_reach [OF s b] .
    have stop: "\<not> date_less ?dtm' e"
      using ve unfolding y'_def m'_def date_less_def by auto
    from less over settle_step [OF reach0, of e]
    have "settle e s n0 = settle e s (n0 + 1)" by simp
    also from less stop settle_stop [OF reach1, of e]
    have "\<dots> = Some (set_months (n0 + 1))" by simp
    finally show ?thesis using True by (simp add: tm tot)
  qed
  then show ?thesis by (simp only: n0_def)
qed


lemma concat_single:
  "distinct ds \<Longrightarrow> d \<in> set ds \<Longrightarrow> concat (map (\<lambda>x. if x = d then [v] else []) ds) = [v]"
proof (induction ds)
  case Nil
  then show ?case by simp
next
  case (Cons a ds)
  show ?case
  proof (cases "a = d")
    case True
    with Cons.prems have "d \<notin> set ds" by simp
    then have "concat (map (\<lambda>x. if x = d then [v] else []) ds) = []" by (induction ds) auto
    with True show ?thesis by simp
  next
    case False
    with Cons show ?thesis by simp
  qed
qed

lemma chart_single:
  assumes "department l \<in> set get_departments"
  shows "chart_rows get_departments (foldl (chart_count f e) [] [l])
     = [(department l, chart_period f e (date l), 1)]"
proof -
  have "(\<lambda>dept. map (\<lambda>(period, cnt). (dept, period, cnt)) (get (chart_count f e [] l) dept []))
      = (\<lambda>x. if x = department l
           then [(department l, chart_period f e (date l), 1)] else [])"
    by (auto simp: fun_eq_iff chart_count_def incr_def get_def)
  then have "chart_rows get_departments (foldl (chart_count f e) [] [l])
      = concat (map (\<lambda>x. if x = department l
           then [(department l, chart_period f e (date l), 1)] else []) get_departments)"
    by (simp add: chart_rows_def)
  then show ?thesis using concat_single [OF departments_distinct assms] by simp
qed

lemma year_label:
  "chart_period Year e d =
     (if year d = year e \<and> month d \<le> month e
      then py_str (year d) @ [45] @ fmt_02d (month d) else py_str (year d))"
  by (simp add: chart_period_def format_of_def strftime_def ascii_def)

lemma employee_single:
  assumes "valid_ymd (fst ym) (snd ym) 1"
  shows "employee_rows Year e [(name, \<lparr>total_cnt = c, months = [(ym, c)]\<rparr>)]
     = Some [(name, (if fst ym = year e \<and> snd ym \<le> month e
                     then py_str (fst ym) @ [45] @ fmt_02d (snd ym) else py_str (fst ym)), c)]"
  using assms
  by (simp add: employee_rows_def employee_period_def mk_date_def format_of_def strftime_def
      ascii_def)

subsection \<open>Inverted ranges\<close>

lemma date_le_trans_less:
  "date_le a b \<Longrightarrow> date_le b c \<Longrightarrow> date_less c a \<Longrightarrow> False"
  by (auto simp: date_le_def date_less_def)

lemma filtered_logs_inverted:
  "date_less end_date start_date \<Longrightarrow> filtered_logs start_date end_date logs = []"
  by (auto simp: filtered_logs_def filter_empty_conv dest: date_le_trans_less)

lemma get_month_range_inverted:
  assumes "valid_date start_date" "valid_date end_date"
    and "year end_date < year start_date
      \<or> (year end_date = year start_date \<and> month end_date < month start_date)"
  shows "get_month_range start_date end_date = Some []"
proof -
  have s: "mk_date (year start_date) (month start_date) 1
      = Some \<lparr>year = year start_date, month = month start_date, day = 1\<rparr>"
    using assms(1) by (auto simp: mk_date_def valid_date_def valid_ymd_def days_in_month_def)
  have e: "mk_date (year end_date) (month end_date) 1
      = Some \<lparr>year = year end_date, month = month end_date, day = 1\<rparr>"
    using assms(2) by (auto simp: mk_date_def valid_date_def valid_ymd_def days_in_month_def)
  have "\<not> date_le \<lparr>year = year start_date, month = month start_date, day = 1\<rparr>
      \<lparr>year = year end_date, month = month end_date, day = 1\<rparr>"
    using assms(3) by (auto simp: date_le_def date_less_def)
  then show ?thesis by (simp add: get_month_range_def s e)
qed

lemma get_month_range_same_month:
  assumes "valid_date start_date" "valid_date end_date"
    and "year end_date = year start_date" "month end_date = month start_date"
    and "year start_date < 9999 \<or> month start_date < 12"
  shows "get_month_range start_date end_date = Some [(year start_date, month start_date)]"
proof -
  let ?c = "\<lparr>year = year start_date, month = month start_date, day = 1\<rparr>"
  let ?n = "\<lparr>year = (if month start_date = 12 then year start_date + 1 else year start_date),
      month = (if month start_date = 12 then 1 else month start_date + 1), day = 1\<rparr>"
  have s: "mk_date (year start_date) (month start_date) 1 = Some ?c"
    using assms(1) by (auto simp: mk_date_def valid_date_def valid_ymd_def days_in_month_def)
  have n: "add_delta ?c \<lparr>rd_years = 0, rd_months = 1\<rparr> = Some ?n"
    using assms(1,5)
    by (auto simp: add_delta_def mk_date_def valid_date_def valid_ymd_def days_in_month_def
        Let_def)
  have le: "date_le ?c ?c" by (simp add: date_le_def)
  have stop: "\<not> date_le ?n ?c" by (auto simp: date_le_def date_less_def)
  have "month_loop ?c ?c [] = Some [(year start_date, month start_date)]"
    using le n stop by simp
  then show ?thesis using assms(3,4) by (simp add: get_month_range_def s)
qed

lemma employee_matrix_empty: "employee_matrix selected_dept [] = []"
  by (simp add: employee_matrix_def)

lemma chart_of_nothing:
  assumes "valid_date start_date" "valid_date end_date" "date_less end_date start_date"
  shows "prepare_chart_data [] start_date end_date = Some ([], Month)"
proof -
  note vs = valid_dateD [OF assms(1)] and ve = valid_dateD [OF assms(2)]
  from assms(3) vs ve
  have "(year end_date - year start_date) * 12 + (month end_date - month start_date) \<le> 0"
    unfolding date_less_def by auto
  then have "(year end_date - year start_date) * 12 + (month end_date - month start_date)
      + (if min (days_in_month (year end_date) (month end_date)) (day start_date)
            < day end_date then 1 else 0) \<le> 12"
    by simp
  with total_months_backward [OF assms] show ?thesis
    by (simp add: prepare_chart_data_def freq_of_def chart_rows_def get_def)
qed

text \<open>
  In December 9999 the month after the one counted does not exist: the month addition
  of \<open>get_month_range\<close> raises, and \<open>main\<close> with it.
\<close>

lemma december_9999_raises:
  "get_month_range \<lparr>year = 9999, month = 12, day = 31\<rparr> \<lparr>year = 9999, month = 12, day = 1\<rparr>
     = None
   \<and> pipeline E raw_logs \<lparr>year = 9999, month = 12, day = 31\<rparr>
         \<lparr>year = 9999, month = 12, day = 1\<rparr> = None"
proof -
  have "get_month_range \<lparr>year = 9999, month = 12, day = 31\<rparr>
      \<lparr>year = 9999, month = 12, day = 1\<rparr> = None"
    by (simp add: get_month_range_def mk_date_def valid_ymd_def days_in_month_def
        date_le_def date_less_def add_delta_def Let_def)
  then show ?thesis by (simp add: pipeline_def Let_def split: option.splits)
qed

text \<open>
  Claim C8 says that the bucket list is empty whenever \<open>start_date > end_date\<close>, and
  that nothing raises.  \<open>get_month_range\<close> compares the first days of the two months,
  so an inverted range inside one month still yields that month; and inside December
  9999 it raises where it steps to the month after.
\<close>

theorem inverted_range_bucket:
  "date_less \<lparr>year = 2024, month = 5, day = 10\<rparr> \<lparr>year = 2024, month = 5, day = 20\<rparr>
   \<and> get_month_range \<lparr>year = 2024, month = 5, day = 20\<rparr> \<lparr>year = 2024, month = 5, day = 10\<rparr>
       = Some [(2024, 5)]
   \<and> date_less \<lparr>year = 9999, month = 12, day = 1\<rparr> \<lparr>year = 9999, month = 12, day = 31\<rparr>
   \<and> get_month_range \<lparr>year = 9999, month = 12, day = 31\<rparr> \<lparr>year = 9999, month = 12, day = 1\<rparr>
       = None
   \<and> pipeline cpython [example_line] \<lparr>year = 9999, month = 12, day = 31\<rparr>
         \<lparr>year = 9999, month = 12, day = 1\<rparr> = None"
proof -
  have "get_month_range \<lparr>year = 2024, month = 5, day = 20\<rparr> \<lparr>year = 2024, month = 5, day = 10\<rparr>
       = Some [(year \<lparr>year = 2024, month = 5, day = 20\<rparr>, month \<lparr>year = 2024, month = 5, day = 20\<rparr>)]"
    by (rule get_month_range_same_month)
       (simp_all add: valid_date_def valid_ymd_def days_in_month_def)
  with december_9999_raises [of cpython "[example_line]"] show ?thesis
    by (simp add: date_less_def)
qed

text \<open>
  Claim C8, amended.  For valid dates with \<open>start_date > end_date\<close>, \<open>end_date\<close> not
  in December 9999, \<open>main\<close> reaches its tables without an error: no record passes the
  date filter, the unit matrix has its six rows with total 0 and no buckets, the
  employee matrix is empty and the chart data have no rows.  The bucket list is empty
  when the month of \<open>end_date\<close> lies before the month of \<open>start_date\<close>; when both
  dates lie in the same month, the bucket list is that one month.
\<close>

theorem inverted_range_empty:
  assumes "valid_date start_date" "valid_date end_date" "date_less end_date start_date"
    and "year end_date < 9999 \<or> month end_date < 12"
  shows "filtered_logs start_date end_date parsed_logs = []
     \<and> pipeline E raw_logs start_date end_date
         = Some ([],
                 (if year end_date = year start_date \<and> month end_date = month start_date
                  then [(year start_date, month start_date)] else []),
                 map (\<lambda>d. (d, \<lparr>total_cnt = 0, months = []\<rparr>)) get_departments)
     \<and> dept_matrix get_departments (filtered_logs start_date end_date parsed_logs)
         = map (\<lambda>d. (d, \<lparr>total_cnt = 0, months = []\<rparr>)) get_departments
     \<and> employee_matrix selected_dept (filtered_logs start_date end_date parsed_logs) = []
     \<and> prepare_chart_data (filtered_logs start_date end_date parsed_logs) start_date end_date
         = Some ([], Month)
     \<and> ((year end_date < year start_date
           \<or> (year end_date = year start_date \<and> month end_date < month start_date))
          \<longrightarrow> get_month_range start_date end_date = Some [])
     \<and> (year end_date = year start_date \<and> month end_date = month start_date
          \<longrightarrow> get_month_range start_date end_date = Some [(year start_date, month start_date)])"
proof -
  have f: "filtered_logs start_date end_date logs = []" for logs
    using assms(3) by (rule filtered_logs_inverted)
  obtain parsed where p: "assign_departments_to_logs E (process_logs E raw_logs) get_departments
      = Some parsed"
    using assign_total [of E "process_logs E raw_logs"] by blast
  have zero: "dept_matrix get_departments []
      = map (\<lambda>d. (d, \<lparr>total_cnt = 0, months = []\<rparr>)) get_departments"
    by (simp add: dept_matrix_def dept_matrix_init_departments empty_stats_def)
  have early: "get_month_range start_date end_date = Some []"
    if "year end_date < year start_date
      \<or> (year end_date = year start_date \<and> month end_date < month start_date)"
    using get_month_range_inverted [OF assms(1,2) that] .
  have same: "get_month_range start_date end_date = Some [(year start_date, month start_date)]"
    if "year end_date = year start_date \<and> month end_date = month start_date"
    using get_month_range_same_month [OF assms(1,2)] that assms(4) by auto
  have months: "get_month_range start_date end_date
      = Some (if year end_date = year start_date \<and> month end_date = month start_date
              then [(year start_date, month start_date)] else [])"
  proof (cases "year end_date = year start_date \<and> month end_date = month start_date")
    case True
    with same show ?thesis by simp
  next
    case False
    with assms(3) have "year end_date < year start_date
      \<or> (year end_date = year start_date \<and> month end_date < month start_date)"
      by (auto simp: date_less_def)
    with early False show ?thesis by simp
  qed
  have pipe: "pipeline E raw_logs start_date end_date
      = Some ([],
              (if year end_date = year start_date \<and> month end_date = month start_date
               then [(year start_date, month start_date)] else []),
              map (\<lambda>d. (d, \<lparr>total_cnt = 0, months = []\<rparr>)) get_departments)"
    by (simp only: pipeline_def p f months zero Let_def option.case)
  have e: "employee_matrix selected_dept (filtered_logs start_date end_date parsed_logs) = []"
    by (simp add: f employee_matrix_empty)
  have c: "prepare_chart_data (filtered_logs start_date end_date parsed_logs)
      start_date end_date = Some ([], Month)"
    using chart_of_nothing [OF assms(1-3)] by (simp add: f)
  from f [of parsed_logs] pipe zero e c early same show ?thesis by (simp add: f)
qed

theorem inverted_range_empty_witness:
  "valid_date \<lparr>year = 2024, month = 5, day = 20\<rparr>
   \<and> valid_date \<lparr>year = 2024, month = 3, day = 10\<rparr>
   \<and> date_less \<lparr>year = 2024, month = 3, day = 10\<rparr> \<lparr>year = 2024, month = 5, day = 20\<rparr>
   \<and> filtered_logs \<lparr>year = 2024, month = 5, day = 20\<rparr> \<lparr>year = 2024, month = 3, day = 10\<rparr>
        [example_dlog] = []
   \<and> get_month_range \<lparr>year = 2024, month = 5, day = 20\<rparr> \<lparr>year = 2024, month = 3, day = 10\<rparr>
       = Some []
   \<and> pipeline cpython [example_line] \<lparr>year = 2024, month = 5, day = 20\<rparr>
        \<lparr>year = 2024, month = 3, day = 10\<rparr>
       = Some ([], [], map (\<lambda>d. (d, \<lparr>total_cnt = 0, months = []\<rparr>)) get_departments)"
proof -
  have v: "valid_date \<lparr>year = 2024, month = 5, day = 20\<rparr>"
      "valid_date \<lparr>year = 2024, month = 3, day = 10\<rparr>"
    by (simp_all add: valid_date_def valid_ymd_def days_in_month_def)
  have l: "date_less \<lparr>year = 2024, month = 3, day = 10\<rparr> \<lparr>year = 2024, month = 5, day = 20\<rparr>"
    by (simp add: date_less_def)
  have n: "year \<lparr>year = 2024, month = 3, day = 10\<rparr> < 9999
      \<or> month \<lparr>year = 2024, month = 3, day = 10\<rparr> < 12" by simp
  from inverted_range_empty [OF v l n, of "[example_dlog]" cpython "[example_line]"] v l
  show ?thesis by simp
qed


subsection \<open>What the projections keep\<close>

lemma get_update:
  "get (AList.update k v al) d dflt = (if d = k then v else get al d dflt)"
  by (simp add: get_def update_conv')

lemma incr_distinct: "distinct (map fst d) \<Longrightarrow> distinct (map fst (incr k d))"
  by (simp add: incr_def distinct_update)

lemma chart_fold_sum:
  assumes "\<forall>d. sum_list (map snd (get data d [])) = c d"
  shows "sum_list (map snd (get (foldl (chart_count f e) data logs) d []))
     = c d + int (length (filter (\<lambda>l. department l = d) logs))"
  using assms
proof (induction logs arbitrary: data c)
  case Nil
  then show ?case by simp
next
  case (Cons l logs)
  let ?c = "\<lambda>x. c x + (if department l = x then 1 else 0)"
  have "\<forall>x. sum_list (map snd (get (chart_count f e data l) x [])) = ?c x"
    using Cons.prems by (simp add: chart_count_def get_update incr_sum)
  from Cons.IH [OF this] show ?case by simp
qed

lemma chart_fold_distinct:
  assumes "\<forall>d. distinct (map fst (get data d []))"
  shows "distinct (map fst (get (foldl (chart_count f e) data logs) d []))"
  using assms
proof (induction logs arbitrary: data)
  case Nil
  then show ?case by simp
next
  case (Cons l logs)
  have "\<forall>x. distinct (map fst (get (chart_count f e data l) x []))"
    using Cons.prems by (simp add: chart_count_def get_update incr_distinct)
  from Cons.IH [OF this] show ?case by simp
qed

lemma chart_rows_of_unit:
  "distinct ds \<Longrightarrow> d \<in> set ds \<Longrightarrow>
     filter (\<lambda>r. fst r = d) (chart_rows ds data) = map (Pair d) (get data d [])"
proof (induction ds)
  case Nil
  then show ?case by simp
next
  case (Cons a ds)
  have rows: "chart_rows xs data = concat (map (\<lambda>dept. map (Pair dept) (get data dept [])) xs)"
    for xs by (simp add: chart_rows_def)
  have other: "filter (\<lambda>r. fst r = d) (map (Pair x) ps) = []" if "x \<noteq> d"
    for x and ps :: "(str \<times> int) list"
    using that by (induction ps) auto
  have same: "filter (\<lambda>r. fst r = d) (map (Pair d) ps) = map (Pair d) ps"
    for ps :: "(str \<times> int) list"
    by (induction ps) auto
  have rest: "filter (\<lambda>r. fst r = d) (chart_rows xs data) = []" if "d \<notin> set xs" for xs
    using that
  proof (induction xs)
    case Nil
    then show ?case by (simp add: rows)
  next
    case (Cons b xs)
    then have "b \<noteq> d" "filter (\<lambda>r. fst r = d) (chart_rows xs data) = []" by auto
    with other [of b "get data b []"] show ?case by (simp add: rows)
  qed
  show ?case
  proof (cases "a = d")
    case True
    with Cons.prems have "d \<notin> set ds" by simp
    from rest [OF this] True same [of "get data d []"] show ?thesis by (simp add: rows)
  next
    case False
    with Cons.prems have "filter (\<lambda>r. fst r = d) (chart_rows ds data)
        = map (Pair d) (get data d [])" using Cons.IH by simp
    with False other [of a "get data a []"] show ?thesis by (simp add: rows)
  qed
qed

text \<open>
  The unit chart neither loses nor doubles a record, and has one entry for a label: the
  counts of the rows of a unit add up to the number of records of the unit, and the
  labels of these rows are distinct.
\<close>

lemma chart_projection_law:
  assumes "prepare_chart_data logs start_date end_date = Some (rows, f)"
    and "d \<in> set get_departments"
  shows "sum_list (map (\<lambda>r. snd (snd r)) (filter (\<lambda>r. fst r = d) rows))
       = int (length (filter (\<lambda>l. department l = d) logs))
     \<and> distinct (map (\<lambda>r. fst (snd r)) (filter (\<lambda>r. fst r = d) rows))"
proof -
  from assms(1) obtain n where rows:
    "rows = chart_rows get_departments (foldl (chart_count (freq_of n) end_date) [] logs)"
    by (auto simp: prepare_chart_data_def split: option.splits)
  let ?data = "foldl (chart_count (freq_of n) end_date) [] logs"
  have r: "filter (\<lambda>r. fst r = d) rows = map (Pair d) (get ?data d [])"
    unfolding rows using departments_distinct assms(2) by (rule chart_rows_of_unit)
  have s: "sum_list (map snd (get ?data d [])) = int (length (filter (\<lambda>l. department l = d) logs))"
    using chart_fold_sum [of "[]" "\<lambda>x. 0" "freq_of n" end_date logs d] by (simp add: get_def)
  have t: "distinct (map fst (get ?data d []))"
    by (rule chart_fold_distinct) (simp add: get_def)
  from s t show ?thesis by (simp add: r comp_def)
qed

lemma those_append:
  "those (xs @ ys) = (case those xs of None \<Rightarrow> None
     | Some a \<Rightarrow> (case those ys of None \<Rightarrow> None | Some b \<Rightarrow> Some (a @ b)))"
  by (induction xs) (auto split: option.splits)

lemma employee_months_rows:
  assumes "those (map (\<lambda>(ym, cnt). map_option (\<lambda>period. (n, period, cnt)) (g ym)) ms) = Some a"
  shows "sum_list (map (\<lambda>r. snd (snd r)) (filter (\<lambda>r. fst r = name) a))
     = (if n = name then sum_list (map snd ms) else 0)"
  using assms
proof (induction ms arbitrary: a)
  case Nil
  then show ?case by simp
next
  case (Cons m ms)
  obtain ym cnt where m: "m = (ym, cnt)" by (cases m)
  from Cons.prems obtain period b where p: "g ym = Some period"
    and b: "those (map (\<lambda>(ym, cnt). map_option (\<lambda>period. (n, period, cnt)) (g ym)) ms) = Some b"
    and a: "a = (n, period, cnt) # b"
    by (auto simp: m split: option.splits)
  from Cons.IH [OF b] show ?case by (simp add: a m)
qed

text \<open>
  The employee chart neither loses nor doubles a count: the counts of the rows of an
  employee add up to the sum of the employee's monthly counts.
\<close>

lemma employee_projection_law:
  assumes "employee_rows f end_date employee_logs = Some rows"
  shows "sum_list (map (\<lambda>r. snd (snd r)) (filter (\<lambda>r. fst r = name) rows))
     = sum_list (map (\<lambda>x. sum_list (map snd (months (snd x))))
         (filter (\<lambda>x. fst x = name) employee_logs))"
  using assms
proof (induction employee_logs arbitrary: rows)
  case Nil
  then show ?case by (simp add: employee_rows_def)
next
  case (Cons x xs)
  obtain n st where x: "x = (n, st)" by (cases x)
  from Cons.prems obtain a b where
    a: "those (map (\<lambda>(ym, cnt). map_option (\<lambda>period. (n, period, cnt))
          (employee_period f end_date ym)) (months st)) = Some a"
    and b: "employee_rows f end_date xs = Some b" and rows: "rows = a @ b"
    by (auto simp: employee_rows_def x those_append split: option.splits)
  from employee_months_rows [OF a, of name] Cons.IH [OF b] show ?case
    by (simp add: rows x)
qed

subsection \<open>Granularity and labels\<close>

lemma get_incr: "get (incr k d) p 0 = (if p = k then get d k 0 + 1 else get d p 0)"
  by (simp add: incr_def get_update)

lemma chart_fold_count:
  assumes "\<forall>d p. get (get data d []) p 0 = c d p"
  shows "get (get (foldl (chart_count f e) data logs) d []) p 0
     = c d p + int (length (filter (\<lambda>l. department l = d \<and> chart_period f e (date l) = p) logs))"
  using assms
proof (induction logs arbitrary: data c)
  case Nil
  then show ?case by simp
next
  case (Cons l logs)
  let ?c = "\<lambda>x q. c x q + (if department l = x \<and> chart_period f e (date l) = q then 1 else 0)"
  have "\<forall>x q. get (get (chart_count f e data l) x []) q 0 = ?c x q"
    using Cons.prems by (simp add: chart_count_def get_update get_incr)
  from Cons.IH [OF this] show ?case by simp
qed

lemma chart_rows_iff:
  "(d, p, c) \<in> set (chart_rows ds data) \<longleftrightarrow> d \<in> set ds \<and> (p, c) \<in> set (get data d [])"
  by (auto simp: chart_rows_def)

lemma chart_fold_positive:
  "(p, c) \<in> set (get (foldl (chart_count f e) [] logs) d []) \<Longrightarrow> 1 \<le> c"
proof -
  assume a: "(p, c) \<in> set (get (foldl (chart_count f e) [] logs) d [])"
  let ?data = "foldl (chart_count f e) [] logs"
  have inv: "\<forall>q\<in>set ?data. (\<exists>x\<in>set logs. department x = fst q) \<and> (\<forall>p\<in>set (snd q). 1 \<le> snd p)"
    by (rule chart_fold_inv) simp_all
  from a get_cases [of ?data d] have "(d, get ?data d []) \<in> set ?data" by auto
  with inv have "\<forall>p\<in>set (get ?data d []). 1 \<le> snd p" by force
  with a show ?thesis by force
qed

text \<open>
  The rows of the unit chart, for any list of records: a unit of the fixed list has a
  row for a label exactly when some record of the unit gets that label, and the count
  of the row is the number of these records.
\<close>

lemma chart_rows_exact:
  assumes "prepare_chart_data logs start_date end_date = Some (rows, f)"
  shows "(d, p, c) \<in> set rows \<longleftrightarrow>
     d \<in> set get_departments \<and> 1 \<le> c
     \<and> c = int (length (filter
         (\<lambda>l. department l = d \<and> chart_period f end_date (date l) = p) logs))"
proof -
  from assms obtain n where rows:
    "rows = chart_rows get_departments (foldl (chart_count (freq_of n) end_date) [] logs)"
    and f: "f = freq_of n"
    by (auto simp: prepare_chart_data_def split: option.splits)
  let ?ps = "get (foldl (chart_count f end_date) [] logs) d []"
  let ?k = "int (length (filter
         (\<lambda>l. department l = d \<and> chart_period f end_date (date l) = p) logs))"
  have cnt: "get ?ps p 0 = ?k"
    using chart_fold_count [of "[]" "\<lambda>x q. 0" f end_date logs d p] by (simp add: get_def)
  have dist: "distinct (map fst ?ps)"
    by (rule chart_fold_distinct) (simp add: get_def)
  have "(p, c) \<in> set ?ps \<longleftrightarrow> 1 \<le> c \<and> c = ?k"
  proof
    assume a: "(p, c) \<in> set ?ps"
    with dist have "map_of ?ps p = Some c" by simp
    then have "get ?ps p 0 = c" by (simp add: get_def)
    with cnt chart_fold_positive [OF a] show "1 \<le> c \<and> c = ?k" by simp
  next
    assume b: "1 \<le> c \<and> c = ?k"
    then have c0: "c \<noteq> 0" by linarith
    from b cnt have "get ?ps p 0 = c" by simp
    with c0 have "map_of ?ps p = Some c" by (auto simp: get_def split: option.splits)
    then show "(p, c) \<in> set ?ps" by (rule map_of_SomeD)
  qed
  then show ?thesis unfolding rows f [symmetric] chart_rows_iff by blast
qed

lemma chart_period_eq:
  "chart_period f e d =
     (if f = Month \<or> (year d = year e \<and> month d \<le> month e)
      then py_str (year d) @ [45] @ fmt_02d (month d) else py_str (year d))"
  by (cases f) (simp_all add: chart_period_def format_of_def strftime_def ascii_def)

lemma those_Some: "those (map (\<lambda>x. Some (g x)) xs) = Some (map g xs)"
  by (induction xs) auto

lemma employee_period_eq:
  "valid_ymd (fst ym) (snd ym) 1 \<Longrightarrow>
     employee_period f e ym =
       Some (if f = Month \<or> (fst ym = year e \<and> snd ym \<le> month e)
             then py_str (fst ym) @ [45] @ fmt_02d (snd ym) else py_str (fst ym))"
  by (cases f)
     (simp_all add: employee_period_def mk_date_def format_of_def strftime_def ascii_def)

text \<open>
  The rows of the employee chart, for any matrix with valid months: one row for every
  counted month of every employee, in the order of the matrix, with the month's label.
\<close>

lemma employee_rows_exact:
  assumes "\<forall>x\<in>set emps. \<forall>y\<in>set (months (snd x)). valid_ymd (fst (fst y)) (snd (fst y)) 1"
  shows "employee_rows f e emps =
     Some (concat (map (\<lambda>x. map (\<lambda>y. (fst x,
        (if f = Month \<or> (fst (fst y) = year e \<and> snd (fst y) \<le> month e)
         then py_str (fst (fst y)) @ [45] @ fmt_02d (snd (fst y)) else py_str (fst (fst y))),
        snd y)) (months (snd x))) emps))"
proof -
  let ?lab = "\<lambda>ym. if f = Month \<or> (fst ym = year e \<and> snd ym \<le> month e)
         then py_str (fst ym) @ [45] @ fmt_02d (snd ym) else py_str (fst ym)"
  have inner: "map (\<lambda>(ym, cnt). map_option (\<lambda>period. (n, period, cnt)) (employee_period f e ym)) ms
      = map (\<lambda>y. Some (n, ?lab (fst y), snd y)) ms"
    if "\<forall>y\<in>set ms. valid_ymd (fst (fst y)) (snd (fst y)) 1" for n ms
    using that by (induction ms) (auto simp: employee_period_eq)
  have outer: "concat (map (\<lambda>(employee, st).
        map (\<lambda>(ym, cnt). map_option (\<lambda>period. (employee, period, cnt)) (employee_period f e ym))
          (months st)) xs)
      = map Some (concat (map (\<lambda>x. map (\<lambda>y. (fst x, ?lab (fst y), snd y)) (months (snd x))) xs))"
    if "\<forall>x\<in>set xs. \<forall>y\<in>set (months (snd x)). valid_ymd (fst (fst y)) (snd (fst y)) 1" for xs
    using that
  proof (induction xs)
    case Nil
    show ?case by simp
  next
    case (Cons x xs)
    obtain n st where x: "x = (n, st)" by (cases x)
    from Cons.prems have "\<forall>y\<in>set (months st). valid_ymd (fst (fst y)) (snd (fst y)) 1"
      by (simp add: x)
    from inner [OF this, of n] Cons show ?case by (simp add: x comp_def)
  qed
  have "those (map Some zs) = Some zs" for zs :: "(str \<times> str \<times> int) list"
    using those_Some [of "\<lambda>z. z" zs] by simp
  with outer [OF assms] show ?thesis by (simp add: employee_rows_def)
qed

text \<open>
  Claim C3.  For valid dates the span is computed without an error.  It is
  \<open>years * 12 + months\<close> of the \<open>relativedelta\<close> of the two dates, which counts whole
  months: the difference of the months, taken back by one month towards zero when the
  day of \<open>end_date\<close> has not reached the day of \<open>start_date\<close> (cut to the length of
  the month of \<open>end_date\<close>).  Both chart functions choose the monthly granularity when
  the span is at most 12 and the yearly one otherwise.  For every list of records the
  unit chart has, for a unit and a label, a row exactly when records of the unit get
  the label, counting them; for every employee matrix the employee chart has a row for
  every counted month, with the label of the month.  In the monthly case the label is
  year and month.  In the yearly case a record of the year of \<open>end_date\<close>, in a month up
  to the month of \<open>end_date\<close>, is labelled with year and month, every other record
  with the bare year.
\<close>

theorem period_resolution:
  assumes "valid_date start_date" "valid_date end_date"
  shows "\<exists>n. total_months start_date end_date = Some n
     \<and> (\<exists>delta. relativedelta_between end_date start_date = Some delta
           \<and> n = rd_years delta * 12 + rd_months delta)
     \<and> n = (year end_date - year start_date) * 12 + (month end_date - month start_date)
          + (if date_less end_date start_date
             then (if min (days_in_month (year end_date) (month end_date)) (day start_date)
                        < day end_date then 1 else 0)
             else (if day end_date
                        < min (days_in_month (year end_date) (month end_date)) (day start_date)
                   then - 1 else 0))
     \<and> (\<exists>rows. prepare_chart_data logs start_date end_date
            = Some (rows, if n \<le> 12 then Month else Year)
          \<and> (\<forall>d p c. (d, p, c) \<in> set rows \<longleftrightarrow>
                d \<in> set get_departments \<and> 1 \<le> c
                \<and> c = int (length (filter (\<lambda>l. department l = d
                      \<and> (if n \<le> 12 \<or> (year (date l) = year end_date
                                       \<and> month (date l) \<le> month end_date)
                         then py_str (year (date l)) @ [45] @ fmt_02d (month (date l))
                         else py_str (year (date l))) = p) logs))))
     \<and> (\<forall>emps rows f. prepare_employee_data emps start_date end_date = Some (rows, f)
            \<longrightarrow> f = (if n \<le> 12 then Month else Year))
     \<and> (\<forall>emps. (\<forall>x\<in>set emps. \<forall>y\<in>set (months (snd x)).
                   valid_ymd (fst (fst y)) (snd (fst y)) 1) \<longrightarrow>
           prepare_employee_data emps start_date end_date
             = Some (concat (map (\<lambda>x. map (\<lambda>y. (fst x,
                 (if n \<le> 12 \<or> (fst (fst y) = year end_date \<and> snd (fst y) \<le> month end_date)
                  then py_str (fst (fst y)) @ [45] @ fmt_02d (snd (fst y))
                  else py_str (fst (fst y))),
                 snd y)) (months (snd x))) emps),
               if n \<le> 12 then Month else Year))
     \<and> (12 < n \<longrightarrow> (\<forall>l. department l \<in> set get_departments \<longrightarrow>
           prepare_chart_data [l] start_date end_date
             = Some ([(department l,
                       (if year (date l) = year end_date \<and> month (date l) \<le> month end_date
                        then py_str (year (date l)) @ [45] @ fmt_02d (month (date l))
                        else py_str (year (date l))), 1)], Year)))
     \<and> (12 < n \<longrightarrow> (\<forall>name ym c. valid_ymd (fst ym) (snd ym) 1 \<longrightarrow>
           prepare_employee_data [(name, \<lparr>total_cnt = c, months = [(ym, c)]\<rparr>)]
               start_date end_date
             = Some ([(name,
                       (if fst ym = year end_date \<and> snd ym \<le> month end_date
                        then py_str (fst ym) @ [45] @ fmt_02d (snd ym)
                        else py_str (fst ym)), c)], Year)))"
proof -
  define n where "n = (year end_date - year start_date) * 12 + (month end_date - month start_date)
          + (if date_less end_date start_date
             then (if min (days_in_month (year end_date) (month end_date)) (day start_date)
                        < day end_date then 1 else 0)
             else (if day end_date
                        < min (days_in_month (year end_date) (month end_date)) (day start_date)
                   then - 1 else 0))"
  define fr where "fr = (if n \<le> 12 then Month else Year)"
  have tm: "total_months start_date end_date = Some n"
  proof (cases "date_less end_date start_date")
    case True
    with total_months_backward [OF assms True] show ?thesis by (simp add: n_def)
  next
    case False
    with total_months_forward [OF assms False] show ?thesis by (simp add: n_def)
  qed
  have c1: "\<exists>delta. relativedelta_between end_date start_date = Some delta
           \<and> n = rd_years delta * 12 + rd_months delta"
    using tm by (auto simp: total_months_def split: option.splits)
  have frq: "freq_of n = fr" by (simp add: freq_of_def fr_def)
  have fm: "fr = Month \<longleftrightarrow> n \<le> 12" by (simp add: fr_def)
  have chart: "prepare_chart_data logs start_date end_date
      = Some (chart_rows get_departments (foldl (chart_count fr end_date) [] logs), fr)" for logs
    by (simp add: prepare_chart_data_def tm frq)
  have c2: "\<exists>rows. prepare_chart_data logs start_date end_date = Some (rows, fr)
          \<and> (\<forall>d p c. (d, p, c) \<in> set rows \<longleftrightarrow>
                d \<in> set get_departments \<and> 1 \<le> c
                \<and> c = int (length (filter (\<lambda>l. department l = d
                      \<and> (if n \<le> 12 \<or> (year (date l) = year end_date
                                       \<and> month (date l) \<le> month end_date)
                         then py_str (year (date l)) @ [45] @ fmt_02d (month (date l))
                         else py_str (year (date l))) = p) logs)))"
    using chart_rows_exact [OF chart [of logs]] chart [of logs]
    by (simp add: chart_period_eq fm)
  have c3: "f = fr"
    if "prepare_employee_data emps start_date end_date = Some (rows, f)" for emps rows f
    using that by (auto simp: prepare_employee_data_def tm frq split: option.splits)
  have c4: "prepare_employee_data emps start_date end_date
             = Some (concat (map (\<lambda>x. map (\<lambda>y. (fst x,
                 (if n \<le> 12 \<or> (fst (fst y) = year end_date \<and> snd (fst y) \<le> month end_date)
                  then py_str (fst (fst y)) @ [45] @ fmt_02d (snd (fst y))
                  else py_str (fst (fst y))),
                 snd y)) (months (snd x))) emps), fr)"
    if "\<forall>x\<in>set emps. \<forall>y\<in>set (months (snd x)). valid_ymd (fst (fst y)) (snd (fst y)) 1"
    for emps
    using employee_rows_exact [OF that, of fr end_date]
    by (simp add: prepare_employee_data_def tm frq fm)
  have c5: "prepare_chart_data [l] start_date end_date
      = Some ([(department l,
                (if year (date l) = year end_date \<and> month (date l) \<le> month end_date
                 then py_str (year (date l)) @ [45] @ fmt_02d (month (date l))
                 else py_str (year (date l))), 1)], Year)"
    if "12 < n" "department l \<in> set get_departments" for l
  proof -
    from that(1) have y: "fr = Year" by (simp add: fr_def)
    show ?thesis
      unfolding chart [of "[l]"] y chart_single [OF that(2)] year_label by simp
  qed
  have c6: "prepare_employee_data [(name, \<lparr>total_cnt = c, months = [(ym, c)]\<rparr>)]
               start_date end_date
             = Some ([(name,
                       (if fst ym = year end_date \<and> snd ym \<le> month end_date
                        then py_str (fst ym) @ [45] @ fmt_02d (snd ym)
                        else py_str (fst ym)), c)], Year)"
    if "12 < n" "valid_ymd (fst ym) (snd ym) 1" for name ym c
    using that(1) employee_single [OF that(2), of end_date name c]
    by (simp add: prepare_employee_data_def tm freq_of_def)
  note d2 = c2 [unfolded fr_def]
  have d3: "\<forall>emps rows f. prepare_employee_data emps start_date end_date = Some (rows, f)
            \<longrightarrow> f = (if n \<le> 12 then Month else Year)"
    using c3 unfolding fr_def by blast
  have d4: "\<forall>emps. (\<forall>x\<in>set emps. \<forall>y\<in>set (months (snd x)).
                   valid_ymd (fst (fst y)) (snd (fst y)) 1) \<longrightarrow>
           prepare_employee_data emps start_date end_date
             = Some (concat (map (\<lambda>x. map (\<lambda>y. (fst x,
                 (if n \<le> 12 \<or> (fst (fst y) = year end_date \<and> snd (fst y) \<le> month end_date)
                  then py_str (fst (fst y)) @ [45] @ fmt_02d (snd (fst y))
                  else py_str (fst (fst y))),
                 snd y)) (months (snd x))) emps),
               if n \<le> 12 then Month else Year)"
    using c4 unfolding fr_def by blast
  have d5: "12 < n \<longrightarrow> (\<forall>l. department l \<in> set get_departments \<longrightarrow>
           prepare_chart_data [l] start_date end_date
             = Some ([(department l,
                       (if year (date l) = year end_date \<and> month (date l) \<le> month end_date
                        then py_str (year (date l)) @ [45] @ fmt_02d (month (date l))
                        else py_str (year (date l))), 1)], Year))"
    using c5 by blast
  have d6: "12 < n \<longrightarrow> (\<forall>name ym c. valid_ymd (fst ym) (snd ym) 1 \<longrightarrow>
           prepare_employee_data [(name, \<lparr>total_cnt = c, months = [(ym, c)]\<rparr>)]
               start_date end_date
             = Some ([(name,
                       (if fst ym = year end_date \<and> snd ym \<le> month end_date
                        then py_str (fst ym) @ [45] @ fmt_02d (snd ym)
                        else py_str (fst ym)), c)], Year))"
    using c6 by blast
  show ?thesis
    by (rule exI [of _ n]) (intro conjI; fact tm c1 n_def d2 d3 d4 d5 d6)
qed

theorem period_resolution_witness:
  "valid_date \<lparr>year = 2022, month = 1, day = 15\<rparr>
   \<and> valid_date \<lparr>year = 2024, month = 2, day = 15\<rparr>
   \<and> total_months \<lparr>year = 2022, month = 1, day = 15\<rparr> \<lparr>year = 2024, month = 2, day = 15\<rparr>
       = Some 25
   \<and> prepare_chart_data [example_dlog] \<lparr>year = 2022, month = 1, day = 15\<rparr>
         \<lparr>year = 2024, month = 2, day = 15\<rparr>
       = Some ([(upravlenie 2, ascii ''2024-01'', 1)], Year)
   \<and> prepare_chart_data [visit_on \<lparr>year = 2022, month = 7, day = 1\<rparr>]
         \<lparr>year = 2022, month = 1, day = 15\<rparr> \<lparr>year = 2024, month = 2, day = 15\<rparr>
       = Some ([(upravlenie 2, ascii ''2022'', 1)], Year)
   \<and> total_months \<lparr>year = 2024, month = 1, day = 15\<rparr> \<lparr>year = 2024, month = 11, day = 15\<rparr>
       = Some 10
   \<and> (\<exists>rows. prepare_chart_data [example_dlog] \<lparr>year = 2024, month = 1, day = 15\<rparr>
         \<lparr>year = 2024, month = 11, day = 15\<rparr> = Some (rows, Month))"
proof -
  let ?a = "\<lparr>year = 2022, month = 1, day = 15\<rparr>"
  let ?b = "\<lparr>year = 2024, month = 2, day = 15\<rparr>"
  let ?c = "\<lparr>year = 2024, month = 1, day = 15\<rparr>"
  let ?d = "\<lparr>year = 2024, month = 11, day = 15\<rparr>"
  have v: "valid_date ?a" "valid_date ?b" "valid_date ?c" "valid_date ?d"
    by (simp_all add: valid_date_def valid_ymd_def days_in_month_def)
  have dep: "department example_dlog = upravlenie 2"
      "department (visit_on \<lparr>year = 2022, month = 7, day = 1\<rparr>) = upravlenie 2"
      "upravlenie 2 \<in> set get_departments"
    by (simp_all add: example_dlog_def visit_on_def with_department_def log.extend_def
        dlog.fields_def get_departments_def)
  have dat: "date example_dlog = \<lparr>year = 2024, month = 1, day = 15\<rparr>"
      "date (visit_on \<lparr>year = 2022, month = 7, day = 1\<rparr>) = \<lparr>year = 2022, month = 7, day = 1\<rparr>"
    by (simp_all add: example_dlog_def example_log_def example_entry_def visit_on_def
        with_department_def with_date_def log.extend_def dlog.fields_def entry.extend_def
        log.fields_def date_of_def)
  from period_resolution [OF v(1,2), of "[example_dlog]"]
  obtain n where n: "total_months ?a ?b = Some n" "n = 25"
    and one: "12 < n \<longrightarrow> (\<forall>l. department l \<in> set get_departments \<longrightarrow>
           prepare_chart_data [l] ?a ?b
             = Some ([(department l,
                       (if year (date l) = year ?b \<and> month (date l) \<le> month ?b
                        then py_str (year (date l)) @ [45] @ fmt_02d (month (date l))
                        else py_str (year (date l))), 1)], Year))"
    by (auto simp: date_less_def days_in_month_def)
  from one n(2) dep have r1: "prepare_chart_data [example_dlog] ?a ?b
       = Some ([(upravlenie 2, ascii ''2024-01'', 1)], Year)"
    by (simp add: dat py_str_def fmt_02d_def ascii_def)
  from one n(2) dep have r2: "prepare_chart_data [visit_on \<lparr>year = 2022, month = 7, day = 1\<rparr>] ?a ?b
       = Some ([(upravlenie 2, ascii ''2022'', 1)], Year)"
    by (simp add: dat py_str_def fmt_02d_def ascii_def)
  from period_resolution [OF v(3,4), of "[example_dlog]"]
  have m: "total_months ?c ?d = Some 10"
      "\<exists>rows. prepare_chart_data [example_dlog] ?c ?d = Some (rows, Month)"
    by (auto simp: date_less_def days_in_month_def)
  from v n r1 r2 m show ?thesis by simp
qed

subsection \<open>Collapsing months in the employee chart\<close>


lemma visits_2022_employees:
  "employee_matrix (upravlenie 2) visits_2022
     = [(ascii ''Ivanov I.I.'', \<lparr>total_cnt = 3, months = [((2022, 1), 1), ((2022, 2), 2)]\<rparr>)]"
  by (simp add: employee_matrix_def visits_2022_def visit_on_def count_employee_def
      year_month_def incr_def get_def empty_stats_def example_entry_def unknown_def
      with_department_def with_date_def log.extend_def dlog.fields_def entry.extend_def
      log.fields_def date_of_def ascii_def Let_def)

lemma span_2022_2024:
  "total_months \<lparr>year = 2022, month = 1, day = 1\<rparr> \<lparr>year = 2024, month = 6, day = 1\<rparr> = Some 29"
  using total_months_forward [of "\<lparr>year = 2022, month = 1, day = 1\<rparr>"
      "\<lparr>year = 2024, month = 6, day = 1\<rparr>"]
  by (simp add: valid_date_def valid_ymd_def days_in_month_def date_less_def)

text \<open>
  Claim C1 requires that months which collapse into one yearly label are merged into a
  single entry holding the sum of their counts.  \<open>prepare_chart_data\<close> does this;
  \<open>prepare_employee_data\<close> emits one row for every counted month.  For an employee
  with one visit in January 2022 and two in February 2022, and the range 2022-01-01 to
  2024-06-01, the employee chart gets two rows with the same label 2022 and the counts 1
  and 2, while the unit chart of the same records gets one row 2022 with the count 3.
\<close>

theorem collapsed_months_not_merged:
  "employee_matrix (upravlenie 2) visits_2022
     = [(ascii ''Ivanov I.I.'', \<lparr>total_cnt = 3, months = [((2022, 1), 1), ((2022, 2), 2)]\<rparr>)]
   \<and> prepare_employee_data (employee_matrix (upravlenie 2) visits_2022)
         \<lparr>year = 2022, month = 1, day = 1\<rparr> \<lparr>year = 2024, month = 6, day = 1\<rparr>
       = Some ([(ascii ''Ivanov I.I.'', ascii ''2022'', 1),
                (ascii ''Ivanov I.I.'', ascii ''2022'', 2)], Year)
   \<and> prepare_chart_data visits_2022
         \<lparr>year = 2022, month = 1, day = 1\<rparr> \<lparr>year = 2024, month = 6, day = 1\<rparr>
       = Some ([(upravlenie 2, ascii ''2022'', 3)], Year)"
proof -
  have e: "prepare_employee_data
      [(ascii ''Ivanov I.I.'', \<lparr>total_cnt = 3, months = [((2022, 1), 1), ((2022, 2), 2)]\<rparr>)]
      \<lparr>year = 2022, month = 1, day = 1\<rparr> \<lparr>year = 2024, month = 6, day = 1\<rparr>
       = Some ([(ascii ''Ivanov I.I.'', ascii ''2022'', 1),
                (ascii ''Ivanov I.I.'', ascii ''2022'', 2)], Year)"
    by (simp add: prepare_employee_data_def span_2022_2024 freq_of_def employee_rows_def
        employee_period_def mk_date_def valid_ymd_def days_in_month_def format_of_def
        strftime_def py_str_def ascii_def)
  have c: "prepare_chart_data visits_2022
         \<lparr>year = 2022, month = 1, day = 1\<rparr> \<lparr>year = 2024, month = 6, day = 1\<rparr>
       = Some ([(upravlenie 2, ascii ''2022'', 3)], Year)"
    by (simp add: prepare_chart_data_def span_2022_2024 freq_of_def chart_rows_def
        chart_count_def chart_period_def format_of_def strftime_def incr_def get_def
        get_departments_def upravlenie_def visits_2022_def visit_on_def example_entry_def
        with_department_def with_date_def log.extend_def dlog.fields_def entry.extend_def
        log.fields_def date_of_def py_str_def ascii_def)
  from e c visits_2022_employees show ?thesis by simp
qed


end
